theory Spec2Isabelle
  imports Main
begin

section \<open>The icon generator of fanta: generateIconFiles\<close>

text \<open>
  The development embeds \<^verbatim>\<open>generateIconFiles\<close> (the one function of the
  repository's generator module) together with the JavaScript string operations, the
  \<^verbatim>\<open>node:path\<close> functions and the file-system calls it uses. Strings are
  \<^typ>\<open>string\<close>; the file system is a record that is passed along and returned
  updated; every rejected promise is a value \<open>Inl e\<close>; the collaborators that are
  imported from other modules (\<^verbatim>\<open>iconName\<close>, \<^verbatim>\<open>generateSvgSprite\<close>,
  \<^verbatim>\<open>writeIfChanged\<close>, svgo, the md5 digest) are the fields of a record \<open>env\<close>.
\<close>

subsection \<open>JavaScript strings\<close>

abbreviation dquote :: char where "dquote \<equiv> CHR 0x22"
abbreviation squote :: char where "squote \<equiv> CHR 0x27"
abbreviation newline :: char where "newline \<equiv> CHR 0x0A"
abbreviation tab :: char where "tab \<equiv> CHR 0x09"

text \<open>\<^verbatim>\<open>s.startsWith(pat)\<close>, \<^verbatim>\<open>s.endsWith(pat)\<close> and \<^verbatim>\<open>s.includes(pat)\<close>.\<close>

fun startsWith :: "string \<Rightarrow> string \<Rightarrow> bool" where
  "startsWith s [] = True"
| "startsWith [] (p # ps) = False"
| "startsWith (c # s) (p # ps) = (c = p \<and> startsWith s ps)"

definition endsWith :: "string \<Rightarrow> string \<Rightarrow> bool" where
  "endsWith s pat = startsWith (rev s) (rev pat)"

fun str_includes :: "string \<Rightarrow> string \<Rightarrow> bool" where
  "str_includes [] pat = (pat = [])"
| "str_includes (c # s) pat = (startsWith (c # s) pat \<or> str_includes s pat)"

text \<open>\<^verbatim>\<open>xs.join(sep)\<close> on an array of strings.\<close>

fun join :: "string \<Rightarrow> string list \<Rightarrow> string" where
  "join sep [] = []"
| "join sep [x] = x"
| "join sep (x # y # ys) = x @ sep @ join sep (y # ys)"

text \<open>\<^verbatim>\<open>s.replace(/"/g, "'")\<close>: every double quote becomes a single quote.\<close>

definition replace_dquotes :: "string \<Rightarrow> string" where
  "replace_dquotes s = map (\<lambda>c. if c = dquote then squote else c) s"

text \<open>
  \<^verbatim>\<open>JSON.stringify\<close> of a string: the text between double quotes, with the double
  quote and the backslash escaped, the control characters below \<open>0x20\<close> written as
  \<^verbatim>\<open>\b \t \n \f \r\<close> or as \<^verbatim>\<open>\u00XX\<close> in lower-case hexadecimal.
\<close>

definition hex_digit :: "nat \<Rightarrow> char" where
  "hex_digit n = ''0123456789abcdef'' ! (n mod 16)"

definition json_escape :: "char \<Rightarrow> string" where
  "json_escape c =
     (if c = dquote then [CHR 0x5C, dquote]
      else if c = CHR 0x5C then [CHR 0x5C, CHR 0x5C]
      else if c = CHR 0x08 then [CHR 0x5C, CHR ''b'']
      else if c = CHR 0x0C then [CHR 0x5C, CHR ''f'']
      else if c = newline then [CHR 0x5C, CHR ''n'']
      else if c = CHR 0x0D then [CHR 0x5C, CHR ''r'']
      else if c = tab then [CHR 0x5C, CHR ''t'']
      else if (of_char c :: nat) < 32
        then [CHR 0x5C, CHR ''u'', CHR ''0'', CHR ''0'',
              hex_digit ((of_char c :: nat) div 16), hex_digit ((of_char c :: nat) mod 16)]
      else [c])"

definition JSON_stringify :: "string \<Rightarrow> string" where
  "JSON_stringify s = dquote # concat (map json_escape s) @ [dquote]"

subsection \<open>node:path (POSIX)\<close>

text \<open>
  \<^verbatim>\<open>path.join\<close> concatenates its non-empty arguments with a slash and normalises
  the result: empty and \<^verbatim>\<open>.\<close> segments are dropped, a \<^verbatim>\<open>..\<close> segment removes
  the segment before it (or stays, in a relative path that has nothing left to remove).
\<close>

fun split_slash :: "string \<Rightarrow> string list" where
  "split_slash [] = [[]]"
| "split_slash (c # s) =
     (if c = CHR ''/'' then [] # split_slash s
      else (case split_slash s of [] \<Rightarrow> [[c]] | x # xs \<Rightarrow> (c # x) # xs))"

fun normalizeString :: "bool \<Rightarrow> string list \<Rightarrow> string list \<Rightarrow> string list" where
  "normalizeString allowAboveRoot res [] = res"
| "normalizeString allowAboveRoot res (seg # rest) =
     (if seg = [] \<or> seg = ''.'' then normalizeString allowAboveRoot res rest
      else if seg = ''..'' then
        (if res \<noteq> [] \<and> last res \<noteq> ''..''
           then normalizeString allowAboveRoot (butlast res) rest
         else if allowAboveRoot
           then normalizeString allowAboveRoot (res @ [''..'']) rest
         else normalizeString allowAboveRoot res rest)
      else normalizeString allowAboveRoot (res @ [seg]) rest)"

definition normalize :: "string \<Rightarrow> string" where
  "normalize p =
     (if p = [] then ''.''
      else
        let isAbsolute = startsWith p ''/'';
            trailingSeparator = endsWith p ''/'';
            q = join ''/'' (normalizeString (\<not> isAbsolute) [] (split_slash p))
        in if q = [] then (if isAbsolute then ''/'' else if trailingSeparator then ''./'' else ''.'')
           else (if isAbsolute then ''/'' else []) @ q @ (if trailingSeparator then ''/'' else []))"

definition path_join :: "string list \<Rightarrow> string" where
  "path_join args =
     (let parts = filter (\<lambda>a. a \<noteq> []) args
      in if parts = [] then ''.'' else normalize (join ''/'' parts))"

text \<open>
  \<^verbatim>\<open>spriteFilepath.replace(/\.svg$/, `.${hash}.svg`)\<close>: the extension at the end of
  the path, if there is one, is replaced (a hexadecimal digest holds no \<^verbatim>\<open>$\<close>
  pattern, so the replacement is inserted as it is).
\<close>

definition replace_svg_ext :: "string \<Rightarrow> string \<Rightarrow> string" where
  "replace_svg_ext p h =
     (if endsWith p ''.svg'' then take (length p - 4) p @ ''.'' @ h @ ''.svg'' else p)"

subsection \<open>The file system\<close>

datatype error = ENOENT | EACCES | EIO | EISDIR | Thrown string

text \<open>
  What the run can observe of the disk: the result of reading each path (\<open>Inl ENOENT\<close>
  for a file that is not there), the failure, if any, of creating a directory and of
  writing a path, and the journal of the writes performed, oldest first.
\<close>

record filesystem =
  disk :: "string \<Rightarrow> error + string"
  dir_fault :: "string \<Rightarrow> error option"
  write_fault :: "string \<Rightarrow> error option"
  journal :: "(string \<times> string) list"

definition readFile :: "filesystem \<Rightarrow> string \<Rightarrow> error + string" where
  "readFile fs p = disk fs p"

definition ensureDir :: "filesystem \<Rightarrow> string \<Rightarrow> error + unit" where
  "ensureDir fs p = (case dir_fault fs p of Some e \<Rightarrow> Inl e | None \<Rightarrow> Inr ())"

definition writeFile :: "filesystem \<Rightarrow> string \<Rightarrow> string \<Rightarrow> (error + unit) \<times> filesystem" where
  "writeFile fs p s =
     (case write_fault fs p of
        Some e \<Rightarrow> (Inl e, fs)
      | None \<Rightarrow> (Inr (), fs\<lparr>disk := (disk fs)(p := Inr s), journal := journal fs @ [(p, s)]\<rparr>))"

text \<open>\<^verbatim>\<open>fsExtra.readFile(p, 'utf8').catch(() => '')\<close>: any rejection becomes the empty text.\<close>

definition readFileOrEmpty :: "filesystem \<Rightarrow> string \<Rightarrow> string" where
  "readFileOrEmpty fs p = (case readFile fs p of Inl e \<Rightarrow> [] | Inr s \<Rightarrow> s)"

text \<open>
  \<^verbatim>\<open>path.dirname\<close> (POSIX): trailing slashes and the last segment are removed, up to
  the slash before it; the first character is never removed.
\<close>

definition dirname :: "string \<Rightarrow> string" where
  "dirname p =
     (if p = [] then ''.''
      else
        let hasRoot = startsWith p ''/'';
            stripped = dropWhile (\<lambda>c. c \<noteq> CHR ''/'') (dropWhile (\<lambda>c. c = CHR ''/'') (rev (tl p)))
        in if stripped = [] then (if hasRoot then ''/'' else ''.'')
           else if hasRoot \<and> length stripped = 1 then ''//''
           else take (length stripped) p)"

subsection \<open>Options, collaborators and the state of a run\<close>

text \<open>
  \<^verbatim>\<open>GenerateIconFilesOptions\<close>. The three optional flags are only ever tested for
  truth or handed on, so \<^verbatim>\<open>undefined\<close> is \<open>False\<close>.
\<close>

record options =
  files :: "string list"
  inputDir :: string
  outputDir :: string
  spriteOutputDir :: string
  shouldOptimize :: bool
  shouldHash :: bool
  force :: bool

datatype svgo_config = SvgoConfig string

text \<open>
  The functions \<^verbatim>\<open>generateIconFiles\<close> imports. Three are modules of the repository
  whose files are not among those read here: \<^verbatim>\<open>iconName\<close> (./icon-name),
  \<^verbatim>\<open>generateSvgSprite\<close> (./generate-svg-sprite, which reads the source files and
  may reject) and \<^verbatim>\<open>writeIfChanged\<close> (../utils/validations), which works on the
  file system and resolves to a boolean. The others are libraries: \<^verbatim>\<open>loadConfig\<close>
  and \<^verbatim>\<open>optimize\<close> of svgo (the field \<open>optimize\<close> is the \<^verbatim>\<open>.data\<close> of the
  result) and \<^verbatim>\<open>crypto.createHash('md5').update(s).digest('hex')\<close>.
\<close>

record env =
  iconName :: "string \<Rightarrow> string"
  generateSvgSprite :: "string list \<Rightarrow> string \<Rightarrow> error + string"
  loadConfig :: "error + svgo_config option"
  optimize :: "string \<Rightarrow> svgo_config option \<Rightarrow> error + string"
  md5 :: "string \<Rightarrow> string"
  writeIfChanged ::
    "string \<Rightarrow> string \<Rightarrow> string option \<Rightarrow> bool \<Rightarrow> filesystem \<Rightarrow> (error + bool) \<times> filesystem"

text \<open>
  The calls a run makes to its collaborators, in order; a call of
  \<^verbatim>\<open>writeIfChanged\<close> is recorded with its arguments (filepath, newContent, hash,
  force) and with what it resolved to.
\<close>

datatype call =
    GenerateSvgSprite "string list" string
  | LoadConfig
  | Optimize string "svgo_config option"
  | CreateHash string
  | WriteIfChanged string string "string option" bool "error + bool"

text \<open>
  The lines of \<^verbatim>\<open>console.log\<close>, each with the values it prints (a path is the one
  handed to \<^verbatim>\<open>path.relative\<close>, the file size is that of the text it carries).
\<close>

datatype message =
    IconsUpToDate
  | GeneratingSprite string
  | Processed string
  | FileSize string
  | SpriteHash string
  | SavedTo string
  | TypesSavedTo string
  | IconNamesSavedTo string
  | HashFileSavedTo string
  | GeneratedIcons nat

record machine =
  filesys :: filesystem
  calls :: "call list"
  console :: "message list"

type_synonym 'a io = "machine \<Rightarrow> (error + 'a) \<times> machine"

definition io_return :: "'a \<Rightarrow> 'a io" where
  "io_return x = (\<lambda>m. (Inr x, m))"

definition io_bind :: "'a io \<Rightarrow> ('a \<Rightarrow> 'b io) \<Rightarrow> 'b io" where
  "io_bind f g = (\<lambda>m. case f m of (Inl e, m') \<Rightarrow> (Inl e, m') | (Inr x, m') \<Rightarrow> g x m')"

definition io_result :: "error + 'a \<Rightarrow> 'a io" where
  "io_result r = (\<lambda>m. (r, m))"

definition record_call :: "call \<Rightarrow> unit io" where
  "record_call c = (\<lambda>m. (Inr (), m\<lparr>calls := calls m @ [c]\<rparr>))"

definition console_log :: "message \<Rightarrow> unit io" where
  "console_log msg = (\<lambda>m. (Inr (), m\<lparr>console := console m @ [msg]\<rparr>))"

fun console_log_each :: "message list \<Rightarrow> unit io" where
  "console_log_each [] = io_return ()"
| "console_log_each (msg # msgs) = io_bind (console_log msg) (\<lambda>_. console_log_each msgs)"

definition call_generateSvgSprite :: "env \<Rightarrow> string list \<Rightarrow> string \<Rightarrow> string io" where
  "call_generateSvgSprite env fls dir =
     io_bind (record_call (GenerateSvgSprite fls dir)) (\<lambda>_. io_result (generateSvgSprite env fls dir))"

definition call_loadConfig :: "env \<Rightarrow> svgo_config option io" where
  "call_loadConfig env = io_bind (record_call LoadConfig) (\<lambda>_. io_result (loadConfig env))"

definition call_optimize :: "env \<Rightarrow> string \<Rightarrow> svgo_config option \<Rightarrow> string io" where
  "call_optimize env doc config =
     io_bind (record_call (Optimize doc config)) (\<lambda>_. io_result (optimize env doc config))"

definition call_md5 :: "env \<Rightarrow> string \<Rightarrow> string io" where
  "call_md5 env s = io_bind (record_call (CreateHash s)) (\<lambda>_. io_return (md5 env s))"

definition call_writeIfChanged ::
  "env \<Rightarrow> string \<Rightarrow> string \<Rightarrow> string option \<Rightarrow> bool \<Rightarrow> bool io" where
  "call_writeIfChanged env filepath newContent hash frc =
     (\<lambda>m. case writeIfChanged env filepath newContent hash frc (filesys m) of
        (r, fs') \<Rightarrow> (r, m\<lparr>filesys := fs', calls := calls m @ [WriteIfChanged filepath newContent hash frc r]\<rparr>))"

subsection \<open>writeIfChanged\<close>

text \<open>
  Modelled from the spec: \<^verbatim>\<open>writeIfChanged\<close> of ../utils/validations is not among the
  files read here. Section 4.5: the existing content is read (a missing file is no error
  and counts as empty text; any other failure is fatal); with \<open>force\<close> the file is
  always written; else, with an expected hash, it is written when that hash differs
  from the hash of the existing content or when there is no file; else it is written
  when the existing text differs from the new one. The parent directory is ensured
  before the write, and the result says whether the file was written.
\<close>

definition writeIfChanged_spec ::
  "(string \<Rightarrow> string) \<Rightarrow> string \<Rightarrow> string \<Rightarrow> string option \<Rightarrow> bool \<Rightarrow> filesystem
     \<Rightarrow> (error + bool) \<times> filesystem" where
  "writeIfChanged_spec hashOf filepath newContent expectedHash frc fs =
     (case (case readFile fs filepath of
              Inr s \<Rightarrow> Inr (Some s)
            | Inl e \<Rightarrow> (if e = ENOENT then Inr None else Inl e)) of
        Inl e \<Rightarrow> (Inl e, fs)
      | Inr existing \<Rightarrow>
          if frc
             \<or> (case expectedHash of
                  Some h \<Rightarrow> (case existing of None \<Rightarrow> True | Some s \<Rightarrow> hashOf s \<noteq> h)
                | None \<Rightarrow> (case existing of None \<Rightarrow> [] | Some s \<Rightarrow> s) \<noteq> newContent)
          then
            (case ensureDir fs (dirname filepath) of
               Inl e \<Rightarrow> (Inl e, fs)
             | Inr _ \<Rightarrow>
                 (case writeFile fs filepath newContent of
                    (Inl e, fs') \<Rightarrow> (Inl e, fs')
                  | (Inr _, fs') \<Rightarrow> (Inr True, fs')))
          else (Inr False, fs))"

subsection \<open>generateIconFiles\<close>

definition spriteFilepath :: "options \<Rightarrow> string" where
  "spriteFilepath opts = path_join [spriteOutputDir opts, ''sprite.svg'']"

definition typesDir :: "options \<Rightarrow> string" where
  "typesDir opts = path_join [outputDir opts, ''types'']"

definition typeOutputFilepath :: "options \<Rightarrow> string" where
  "typeOutputFilepath opts = path_join [typesDir opts, ''icon-name.d.ts'']"

definition iconsOutputFilepath :: "options \<Rightarrow> string" where
  "iconsOutputFilepath opts = path_join [outputDir opts, ''icons.ts'']"

definition hashOutputFilepath :: "options \<Rightarrow> string" where
  "hashOutputFilepath opts = path_join [outputDir opts, ''hash.ts'']"

text \<open>Lines 44 to 49: the two \<^verbatim>\<open>every\<close> tests.\<close>

definition spriteUpToDate :: "string list \<Rightarrow> string \<Rightarrow> bool" where
  "spriteUpToDate iconNames currentSprite =
     list_all (\<lambda>name. str_includes currentSprite (''id='' @ name)) iconNames"

definition typesUpToDate :: "string list \<Rightarrow> string \<Rightarrow> bool" where
  "typesUpToDate iconNames currentTypes =
     list_all (\<lambda>name. str_includes currentTypes ([dquote] @ name @ [dquote])) iconNames"

text \<open>Lines 99 to 102, 117 to 122 and 141: the three generated texts.\<close>

definition stringifiedIconNames :: "string list \<Rightarrow> string list" where
  "stringifiedIconNames iconNames = map JSON_stringify iconNames"

definition typeOutputContent :: "string list \<Rightarrow> string" where
  "typeOutputContent iconNames =
     ''export type IconName ='' @ [newline] @ ''    '' @ [tab] @ ''| ''
       @ replace_dquotes (join ([newline, tab] @ ''| '') (stringifiedIconNames iconNames))
       @ '';'' @ [newline] @ ''    ''"

definition iconsOutputContent :: "string list \<Rightarrow> string" where
  "iconsOutputContent iconNames =
     ''import { IconName } from '' @ [squote] @ ''./types/icon-name'' @ [squote] @ '';'' @ [newline]
       @ ''  '' @ [newline]
       @ ''  export const icons = ['' @ [newline]
       @ ''  '' @ [tab] @ join ('','' @ [newline, tab]) (stringifiedIconNames iconNames) @ '','' @ [newline]
       @ ''  ] satisfies Array<IconName>;'' @ [newline]
       @ ''  ''"

text \<open>A template literal prints \<^verbatim>\<open>undefined\<close> for a hash that was never computed.\<close>

definition template_hash :: "string option \<Rightarrow> string" where
  "template_hash hash = (case hash of Some h \<Rightarrow> h | None \<Rightarrow> ''undefined'')"

definition hashFileContent :: "string option \<Rightarrow> string" where
  "hashFileContent hash = ''export const hash = '' @ [squote] @ template_hash hash @ [squote] @ '';'' @ [newline]"

text \<open>Lines 56 to 160: what runs when the early return is not taken.\<close>

definition regenerate :: "env \<Rightarrow> options \<Rightarrow> string list \<Rightarrow> unit io" where
  "regenerate env opts iconNames =
     io_bind (call_generateSvgSprite env (files opts) (inputDir opts)) (\<lambda>generated.
     io_bind (if shouldOptimize opts
              then io_bind (call_loadConfig env) (\<lambda>config. call_optimize env generated config)
              else io_return generated) (\<lambda>output.
     io_bind (if shouldHash opts
              then io_bind (call_md5 env output) (\<lambda>h. io_return (Some h))
              else io_return None) (\<lambda>hash.
     io_bind (call_writeIfChanged env (spriteFilepath opts) output hash (force opts)) (\<lambda>spriteChanged.
     io_bind (if spriteChanged
              then console_log_each
                     ([GeneratingSprite (inputDir opts)] @ map Processed (files opts) @ [FileSize output]
                      @ (if shouldHash opts
                         then [SpriteHash (template_hash hash),
                               SavedTo (replace_svg_ext (spriteFilepath opts) (template_hash hash))]
                         else [SavedTo (spriteFilepath opts)]))
              else io_return ()) (\<lambda>_.
     io_bind (call_writeIfChanged env (typeOutputFilepath opts) (typeOutputContent iconNames)
                None (force opts)) (\<lambda>typesChanged.
     io_bind (if typesChanged then console_log (TypesSavedTo (typeOutputFilepath opts))
              else io_return ()) (\<lambda>_.
     io_bind (call_writeIfChanged env (iconsOutputFilepath opts) (iconsOutputContent iconNames)
                None (force opts)) (\<lambda>iconsChanged.
     io_bind (if iconsChanged then console_log (IconNamesSavedTo (iconsOutputFilepath opts))
              else io_return ()) (\<lambda>_.
     io_bind (if shouldHash opts
              then io_bind (call_writeIfChanged env (hashOutputFilepath opts) (hashFileContent hash)
                              None (force opts)) (\<lambda>hashFileChanged.
                   if hashFileChanged then console_log (HashFileSavedTo (hashOutputFilepath opts))
                   else io_return ())
              else io_return ()) (\<lambda>_.
     if spriteChanged \<or> typesChanged \<or> iconsChanged
     then console_log (GeneratedIcons (length (files opts)))
     else console_log IconsUpToDate))))))))))"

text \<open>Lines 20 to 54, and then the rest.\<close>

definition generateIconFiles :: "env \<Rightarrow> options \<Rightarrow> unit io" where
  "generateIconFiles env opts =
     io_bind (\<lambda>m. (ensureDir (filesys m) (typesDir opts), m)) (\<lambda>_.
     io_bind (\<lambda>m. (Inr (readFileOrEmpty (filesys m) (spriteFilepath opts)), m)) (\<lambda>currentSprite.
     io_bind (\<lambda>m. (Inr (readFileOrEmpty (filesys m) (typeOutputFilepath opts)), m)) (\<lambda>currentTypes.
     let iconNames = map (iconName env) (files opts) in
     if spriteUpToDate iconNames currentSprite \<and> typesUpToDate iconNames currentTypes
     then console_log IconsUpToDate
     else regenerate env opts iconNames)))"

text \<open>One invocation: the function runs on the disk as it is, with nothing called or printed yet.\<close>

definition run :: "env \<Rightarrow> options \<Rightarrow> filesystem \<Rightarrow> (error + unit) \<times> machine" where
  "run env opts disk0 = generateIconFiles env opts \<lparr>filesys = disk0, calls = [], console = []\<rparr>"

subsection \<open>What a run is observed by\<close>

text \<open>The early return of line 51, as a test on the disk the run starts from.\<close>

definition upToDate :: "env \<Rightarrow> options \<Rightarrow> filesystem \<Rightarrow> bool" where
  "upToDate env opts d =
     (spriteUpToDate (map (iconName env) (files opts)) (readFileOrEmpty d (spriteFilepath opts))
      \<and> typesUpToDate (map (iconName env) (files opts)) (readFileOrEmpty d (typeOutputFilepath opts)))"

text \<open>The four paths a run hands to \<^verbatim>\<open>writeIfChanged\<close>.\<close>

definition targets :: "options \<Rightarrow> string set" where
  "targets opts =
     {spriteFilepath opts, typeOutputFilepath opts, iconsOutputFilepath opts, hashOutputFilepath opts}"

text \<open>The last four characters of a path tell the four targets apart.\<close>

definition ext4 :: "string \<Rightarrow> string" where
  "ext4 p = rev (take 4 (rev p))"

text \<open>The paths of the calls of \<^verbatim>\<open>writeIfChanged\<close>, in order.\<close>

fun call_paths :: "call list \<Rightarrow> string list" where
  "call_paths [] = []"
| "call_paths (WriteIfChanged p c h frc r # cs) = p # call_paths cs"
| "call_paths (other # cs) = call_paths cs"

text \<open>
  Whether some call of \<^verbatim>\<open>writeIfChanged\<close> on the path \<open>p\<close> resolved to
  \<^verbatim>\<open>true\<close>: the \<^verbatim>\<open>changed\<close> flag of the artifact at \<open>p\<close>.
\<close>

fun changed_at :: "string \<Rightarrow> call list \<Rightarrow> bool" where
  "changed_at p [] = False"
| "changed_at p (WriteIfChanged q c h frc r # cs) = ((q = p \<and> r = Inr True) \<or> changed_at p cs)"
| "changed_at p (other # cs) = changed_at p cs"

text \<open>The texts handed to \<^verbatim>\<open>writeIfChanged\<close> for the path \<open>p\<close>, in order.\<close>

fun contents_for :: "string \<Rightarrow> call list \<Rightarrow> string list" where
  "contents_for p [] = []"
| "contents_for p (WriteIfChanged q c h frc r # cs) =
     (if q = p then c # contents_for p cs else contents_for p cs)"
| "contents_for p (other # cs) = contents_for p cs"

text \<open>What the calls of \<^verbatim>\<open>writeIfChanged\<close> resolved to, in order.\<close>

fun write_results :: "call list \<Rightarrow> (error + bool) list" where
  "write_results [] = []"
| "write_results (WriteIfChanged p c h frc r # cs) = r # write_results cs"
| "write_results (other # cs) = write_results cs"

text \<open>The texts a digest was computed of, in order.\<close>

fun hashed_inputs :: "call list \<Rightarrow> string list" where
  "hashed_inputs [] = []"
| "hashed_inputs (CreateHash s # cs) = s # hashed_inputs cs"
| "hashed_inputs (other # cs) = hashed_inputs cs"

text \<open>The sprite text of a run: the assembled document, after svgo when optimising.\<close>

definition final_output :: "env \<Rightarrow> options \<Rightarrow> error + string" where
  "final_output env opts =
     (case generateSvgSprite env (files opts) (inputDir opts) of
        Inl e \<Rightarrow> Inl e
      | Inr generated \<Rightarrow>
          if shouldOptimize opts
          then (case loadConfig env of Inl e \<Rightarrow> Inl e | Inr cfg \<Rightarrow> optimize env generated cfg)
          else Inr generated)"

text \<open>Line 66 to 69: the hash of a run whose sprite text is \<open>output\<close>.\<close>

definition sprite_hash :: "options \<Rightarrow> env \<Rightarrow> string \<Rightarrow> string option" where
  "sprite_hash opts env output = (if shouldHash opts then Some (md5 env output) else None)"

text \<open>The artifacts of a run whose sprite text is \<open>out\<close>: path and text, in the order written.\<close>

definition fresh_artifacts :: "env \<Rightarrow> options \<Rightarrow> string \<Rightarrow> (string \<times> string) list" where
  "fresh_artifacts env opts out =
     [(spriteFilepath opts, out),
      (typeOutputFilepath opts, typeOutputContent (map (iconName env) (files opts))),
      (iconsOutputFilepath opts, iconsOutputContent (map (iconName env) (files opts)))]
     @ (if shouldHash opts
        then [(hashOutputFilepath opts, hashFileContent (sprite_hash opts env out))]
        else [])"

text \<open>
  The calls and the console lines of a run that regenerates and completes, given the
  assembled document, the svgo configuration, the sprite text and what the four
  writes resolved to (\<open>c4\<close> counts only with \<open>shouldHash\<close>).
\<close>

definition expected_calls ::
  "options \<Rightarrow> env \<Rightarrow> string list \<Rightarrow> string \<Rightarrow> svgo_config option \<Rightarrow> string
     \<Rightarrow> bool \<Rightarrow> bool \<Rightarrow> bool \<Rightarrow> bool \<Rightarrow> call list" where
  "expected_calls opts env names generated cfg output c1 c2 c3 c4 =
     [GenerateSvgSprite (files opts) (inputDir opts)]
     @ (if shouldOptimize opts then [LoadConfig, Optimize generated cfg] else [])
     @ (if shouldHash opts then [CreateHash output] else [])
     @ [WriteIfChanged (spriteFilepath opts) output (sprite_hash opts env output) (force opts) (Inr c1),
        WriteIfChanged (typeOutputFilepath opts) (typeOutputContent names) None (force opts) (Inr c2),
        WriteIfChanged (iconsOutputFilepath opts) (iconsOutputContent names) None (force opts) (Inr c3)]
     @ (if shouldHash opts
        then [WriteIfChanged (hashOutputFilepath opts) (hashFileContent (sprite_hash opts env output))
                None (force opts) (Inr c4)]
        else [])"

definition expected_console ::
  "options \<Rightarrow> env \<Rightarrow> string \<Rightarrow> bool \<Rightarrow> bool \<Rightarrow> bool \<Rightarrow> bool \<Rightarrow> message list" where
  "expected_console opts env output c1 c2 c3 c4 =
     (if c1
      then [GeneratingSprite (inputDir opts)] @ map Processed (files opts) @ [FileSize output]
           @ (if shouldHash opts
              then [SpriteHash (template_hash (sprite_hash opts env output)),
                    SavedTo (replace_svg_ext (spriteFilepath opts) (template_hash (sprite_hash opts env output)))]
              else [SavedTo (spriteFilepath opts)])
      else [])
     @ (if c2 then [TypesSavedTo (typeOutputFilepath opts)] else [])
     @ (if c3 then [IconNamesSavedTo (iconsOutputFilepath opts)] else [])
     @ (if shouldHash opts \<and> c4 then [HashFileSavedTo (hashOutputFilepath opts)] else [])
     @ [if c1 \<or> c2 \<or> c3 then GeneratedIcons (length (files opts)) else IconsUpToDate]"

text \<open>
  An action that only appends to the list of calls, every \<^verbatim>\<open>writeIfChanged\<close> it
  appends having its path in \<open>S\<close>.
\<close>

definition appends_calls :: "string set \<Rightarrow> 'a io \<Rightarrow> bool" where
  "appends_calls S f =
     (\<forall>m. \<exists>rest. calls (snd (f m)) = calls m @ rest \<and> set (call_paths rest) \<subseteq> S)"

text \<open>An action that leaves the readable content of every path outside \<open>S\<close> alone.\<close>

definition keeps_disk :: "string set \<Rightarrow> 'a io \<Rightarrow> bool" where
  "keeps_disk S f = (\<forall>m q. q \<notin> S \<longrightarrow> disk (filesys (snd (f m))) q = disk (filesys m) q)"

text \<open>A writer that touches no path but the one it is given.\<close>

definition writes_own_path ::
  "(string \<Rightarrow> string \<Rightarrow> string option \<Rightarrow> bool \<Rightarrow> filesystem \<Rightarrow> (error + bool) \<times> filesystem) \<Rightarrow> bool" where
  "writes_own_path w =
     (\<forall>p c h frc d q. q \<noteq> p \<longrightarrow> disk (snd (w p c h frc d)) q = disk d q)"

subsection \<open>Reading the generated texts back\<close>

text \<open>
  \<open>scan q\<close> walks through a text and collects the bodies of its \<open>q\<close>-quoted string
  literals, in order; inside a literal a backslash takes the next character with it.
  The accumulator is the body read so far, or \<open>None\<close> outside a literal.
\<close>

fun scan :: "char \<Rightarrow> string option \<Rightarrow> string \<Rightarrow> string list" where
  "scan q None [] = []"
| "scan q (Some acc) [] = []"
| "scan q None (c # s) = (if c = q then scan q (Some []) s else scan q None s)"
| "scan q (Some acc) (c # s) =
     (if c = q then acc # scan q None s
      else if c = CHR 0x5C then (case s of [] \<Rightarrow> [] | e # s' \<Rightarrow> scan q (Some (acc @ [c, e])) s')
      else scan q (Some (acc @ [c])) s)"

definition string_literals :: "char \<Rightarrow> string \<Rightarrow> string list" where
  "string_literals q text = scan q None text"

text \<open>
  The string a literal's body denotes: \<^verbatim>\<open>\b \f \n \r \t\<close> and \<^verbatim>\<open>\uXXXX\<close> are the
  characters they name (a character being a byte here), a backslash before any other
  character stands for that character.
\<close>

fun index_of :: "char \<Rightarrow> string \<Rightarrow> nat" where
  "index_of c [] = 0"
| "index_of c (x # xs) = (if x = c then 0 else Suc (index_of c xs))"

definition hex_val :: "char \<Rightarrow> nat" where
  "hex_val c = index_of c ''0123456789abcdef''"

fun unescape :: "string \<Rightarrow> string" where
  "unescape [] = []"
| "unescape [c] = [c]"
| "unescape (c # e # s) =
     (if c = CHR 0x5C then
        (if e = CHR ''b'' then CHR 0x08 # unescape s
         else if e = CHR ''f'' then CHR 0x0C # unescape s
         else if e = CHR ''n'' then newline # unescape s
         else if e = CHR ''r'' then CHR 0x0D # unescape s
         else if e = CHR ''t'' then tab # unescape s
         else if e = CHR ''u'' then
           (case s of
              h1 # h2 # h3 # h4 # s' \<Rightarrow>
                char_of (hex_val h1 * 4096 + hex_val h2 * 256 + hex_val h3 * 16 + hex_val h4)
                  # unescape s'
            | _ \<Rightarrow> [])
         else e # unescape s)
      else c # unescape (e # s))"

subsection \<open>A concrete setting for the examples\<close>

text \<open>
  An identifier is the file name without its extension, the sprite is one symbol per
  file, svgo has no configuration and returns the document as it is, the digest
  stands in for md5 (two hexadecimal digits of the length), and
  \<^verbatim>\<open>writeIfChanged\<close> is the writer of section 4.5.
\<close>

definition demo_iconName :: "string \<Rightarrow> string" where
  "demo_iconName file = (if endsWith file ''.svg'' then take (length file - 4) file else file)"

definition demo_digest :: "string \<Rightarrow> string" where
  "demo_digest s = [hex_digit (length s div 16 mod 16), hex_digit (length s mod 16)]"

definition demo_env :: env where
  "demo_env =
     \<lparr> iconName = demo_iconName,
       generateSvgSprite = (\<lambda>fls dir. Inr (''<svg>''
          @ concat (map (\<lambda>file. ''<symbol id='' @ demo_iconName file @ ''/>'') fls) @ ''</svg>'')),
       loadConfig = Inr None,
       optimize = (\<lambda>doc cfg. Inr doc),
       md5 = demo_digest,
       writeIfChanged = writeIfChanged_spec demo_digest \<rparr>"

definition demo_options :: options where
  "demo_options =
     \<lparr> files = [''home.svg''], inputDir = ''src/icons'', outputDir = ''src/gen'',
       spriteOutputDir = ''public'', shouldOptimize = False, shouldHash = True, force = False \<rparr>"

text \<open>The demo options with \<open>force\<close> set.\<close>

definition forced_options :: options where
  "forced_options = demo_options\<lparr>force := True\<rparr>"

text \<open>The demo options with two files that are not in alphabetical order.\<close>

definition unsorted_options :: options where
  "unsorted_options = demo_options\<lparr>files := [''zebra.svg'', ''apple.svg'']\<rparr>"

text \<open>A disk with no file on it, which refuses nothing.\<close>

definition empty_disk :: filesystem where
  "empty_disk = \<lparr> disk = (\<lambda>p. Inl ENOENT), dir_fault = (\<lambda>p. None), write_fault = (\<lambda>p. None),
                  journal = [] \<rparr>"

text \<open>The empty disk, but reading the sprite is refused.\<close>

definition unreadable_sprite_disk :: filesystem where
  "unreadable_sprite_disk = empty_disk\<lparr>disk := (\<lambda>p. if p = ''public/sprite.svg'' then Inl EACCES else Inl ENOENT)\<rparr>"

text \<open>
  The demo output directory as a run over \<^verbatim>\<open>home.svg\<close> leaves it: all four
  artifacts are there, with the texts the run writes.
\<close>

definition disk_after_run :: filesystem where
  "disk_after_run =
     empty_disk\<lparr>disk := (\<lambda>p.
        if p = ''public/sprite.svg'' then Inr ''<svg><symbol id=home/></svg>''
        else if p = ''src/gen/types/icon-name.d.ts'' then Inr (typeOutputContent [''home''])
        else if p = ''src/gen/icons.ts'' then Inr (iconsOutputContent [''home''])
        else if p = ''src/gen/hash.ts'' then Inr (hashFileContent (Some ''1c''))
        else Inl ENOENT)\<rparr>"

text \<open>The same with the hash module deleted.\<close>

definition disk_without_hash_module :: filesystem where
  "disk_without_hash_module =
     empty_disk\<lparr>disk := (\<lambda>p.
        if p = ''public/sprite.svg'' then Inr ''<svg><symbol id=home/></svg>''
        else if p = ''src/gen/types/icon-name.d.ts'' then Inr (typeOutputContent [''home''])
        else if p = ''src/gen/icons.ts'' then Inr (iconsOutputContent [''home''])
        else Inl ENOENT)\<rparr>"

section \<open>Properties\<close>

subsection \<open>Paths\<close>

lemma split_slash_nonempty: "split_slash s \<noteq> []"
  by (induction s) (auto split: list.splits)

lemma split_slash_no_slash: "CHR ''/'' \<notin> set b \<Longrightarrow> split_slash b = [b]"
  by (induction b) auto

lemma split_slash_append:
  "split_slash (a @ CHR ''/'' # b) = split_slash a @ split_slash b"
  by (induction a) (auto split: list.splits simp: split_slash_nonempty)

lemma normalizeString_append:
  "normalizeString al res (xs @ ys) = normalizeString al (normalizeString al res xs) ys"
  by (induction xs arbitrary: res) auto

lemma join_snoc: "join sep (xs @ [b]) = (if xs = [] then b else join sep xs @ sep @ b)"
  by (induction sep xs rule: join.induct) auto

lemma endsWith_slash: "endsWith p ''/'' = (p \<noteq> [] \<and> last p = CHR ''/'')"
  by (cases p rule: rev_cases) (auto simp: endsWith_def)

lemma normalize_suffix:
  assumes "b \<noteq> []" "CHR ''/'' \<notin> set b" "b \<noteq> ''.''" "b \<noteq> ''..''"
    and "p = b \<or> (\<exists>a. p = a @ CHR ''/'' # b)"
  shows "\<exists>pre. normalize p = pre @ b"
proof -
  have last_b: "last b \<noteq> CHR ''/''" using assms(1,2) by (metis last_in_set)
  have pne: "p \<noteq> []" using assms by auto
  have lastp: "last p = last b" using assms by auto
  obtain segs where segs: "split_slash p = segs @ [b]"
    using assms(2,5) by (auto simp: split_slash_no_slash split_slash_append)
  have ns: "normalizeString al [] (segs @ [b]) = normalizeString al [] segs @ [b]" for al
    using assms by (simp add: normalizeString_append)
  show ?thesis
    using pne lastp last_b assms(1)
    by (auto simp: normalize_def Let_def segs ns join_snoc endsWith_slash)
qed

lemma path_join_suffix:
  assumes "b \<noteq> []" "CHR ''/'' \<notin> set b" "b \<noteq> ''.''" "b \<noteq> ''..''"
  shows "\<exists>pre. path_join [a, b] = pre @ b"
proof (cases "a = []")
  case True
  then show ?thesis using assms normalize_suffix[OF assms, of b] by (simp add: path_join_def)
next
  case False
  then show ?thesis using assms normalize_suffix[OF assms, of "a @ CHR ''/'' # b"]
    by (simp add: path_join_def)
qed

lemma ext4_append: "4 \<le> length b \<Longrightarrow> ext4 (pre @ b) = ext4 b"
  by (simp add: ext4_def)

lemma ext4_spriteFilepath: "ext4 (spriteFilepath opts) = ''.svg''"
proof -
  obtain pre where "spriteFilepath opts = pre @ ''sprite.svg''"
    unfolding spriteFilepath_def using path_join_suffix[of "''sprite.svg''"] by auto
  then show ?thesis by (simp add: ext4_append) (simp add: ext4_def)
qed

lemma ext4_typeOutputFilepath: "ext4 (typeOutputFilepath opts) = ''d.ts''"
proof -
  obtain pre where "typeOutputFilepath opts = pre @ ''icon-name.d.ts''"
    unfolding typeOutputFilepath_def using path_join_suffix[of "''icon-name.d.ts''"] by auto
  then show ?thesis by (simp add: ext4_append) (simp add: ext4_def)
qed

lemma ext4_iconsOutputFilepath: "ext4 (iconsOutputFilepath opts) = ''s.ts''"
proof -
  obtain pre where "iconsOutputFilepath opts = pre @ ''icons.ts''"
    unfolding iconsOutputFilepath_def using path_join_suffix[of "''icons.ts''"] by auto
  then show ?thesis by (simp add: ext4_append) (simp add: ext4_def)
qed

lemma ext4_hashOutputFilepath: "ext4 (hashOutputFilepath opts) = ''h.ts''"
proof -
  obtain pre where "hashOutputFilepath opts = pre @ ''hash.ts''"
    unfolding hashOutputFilepath_def using path_join_suffix[of "''hash.ts''"] by auto
  then show ?thesis by (simp add: ext4_append) (simp add: ext4_def)
qed

lemmas ext4_paths = ext4_spriteFilepath ext4_typeOutputFilepath ext4_iconsOutputFilepath ext4_hashOutputFilepath

lemma paths_distinct:
  "distinct [spriteFilepath opts, typeOutputFilepath opts, iconsOutputFilepath opts, hashOutputFilepath opts]"
proof -
  have "distinct (map ext4 [spriteFilepath opts, typeOutputFilepath opts, iconsOutputFilepath opts, hashOutputFilepath opts])"
    by (simp add: ext4_paths)
  then show ?thesis by (simp only: distinct_map)
qed

lemma endsWith_append_self: "endsWith (pre @ b) b"
proof -
  have "startsWith (x @ y) x" for x y :: string by (induction x) auto
  then show ?thesis by (simp add: endsWith_def)
qed

lemma hashed_name_fresh:
  "replace_svg_ext (spriteFilepath opts) h \<notin>
     {spriteFilepath opts, typeOutputFilepath opts, iconsOutputFilepath opts, hashOutputFilepath opts}"
proof -
  obtain pre where pre: "spriteFilepath opts = pre @ ''sprite.svg''"
    unfolding spriteFilepath_def using path_join_suffix[of "''sprite.svg''"] by auto
  have e: "endsWith (spriteFilepath opts) ''.svg''"
    using endsWith_append_self[of "pre @ ''sprite''" "''.svg''"] by (simp add: pre)
  have r: "replace_svg_ext (spriteFilepath opts) h = pre @ ''sprite.'' @ h @ ''.svg''"
    by (simp add: replace_svg_ext_def e) (simp add: pre)
  have x: "ext4 (replace_svg_ext (spriteFilepath opts) h) = ''.svg''"
    unfolding r using ext4_append[of "''.svg''" "pre @ ''sprite.'' @ h"] by (simp add: ext4_def)
  have l: "length (replace_svg_ext (spriteFilepath opts) h) \<noteq> length (spriteFilepath opts)"
    by (simp only: r) (simp add: pre)
  show ?thesis using x l ext4_paths[of opts] by auto
qed

subsection \<open>Running the function step by step\<close>

lemma console_log_each_eq:
  "console_log_each msgs m = (Inr (), m\<lparr>console := console m @ msgs\<rparr>)"
  by (induction msgs arbitrary: m) (simp_all add: io_return_def io_bind_def console_log_def)

lemma io_bind_Inr:
  "io_bind f g m = (Inr y, m') \<longleftrightarrow> (\<exists>x m1. f m = (Inr x, m1) \<and> g x m1 = (Inr y, m'))"
  by (auto simp: io_bind_def split: prod.splits sum.splits)

lemma call_generateSvgSprite_Inr:
  "call_generateSvgSprite env f d m = (Inr g, m1) \<longleftrightarrow>
     generateSvgSprite env f d = Inr g \<and> m1 = m\<lparr>calls := calls m @ [GenerateSvgSprite f d]\<rparr>"
  by (auto simp: call_generateSvgSprite_def io_bind_def record_call_def io_result_def)

lemma optimize_stage_Inr:
  "(if b then io_bind (call_loadConfig env) (\<lambda>config. call_optimize env g config) else io_return g) m
      = (Inr output, m1) \<longleftrightarrow>
   (if b then \<exists>config. loadConfig env = Inr config \<and> optimize env g config = Inr output
                \<and> m1 = m\<lparr>calls := calls m @ [LoadConfig, Optimize g config]\<rparr>
    else output = g \<and> m1 = m)"
  by (auto simp: call_loadConfig_def call_optimize_def io_bind_def record_call_def io_result_def
        io_return_def split: sum.splits)

lemma hash_stage_Inr:
  "(if shouldHash opts then io_bind (call_md5 env output) (\<lambda>h. io_return (Some h)) else io_return None) m
      = (Inr hash, m1) \<longleftrightarrow>
   hash = sprite_hash opts env output
     \<and> m1 = m\<lparr>calls := calls m @ (if shouldHash opts then [CreateHash output] else [])\<rparr>"
  by (auto simp: call_md5_def io_bind_def record_call_def io_return_def sprite_hash_def)

lemma call_writeIfChanged_Inr:
  "call_writeIfChanged env p c h f m = (Inr b, m1) \<longleftrightarrow>
     (\<exists>fs'. writeIfChanged env p c h f (filesys m) = (Inr b, fs')
        \<and> m1 = m\<lparr>filesys := fs', calls := calls m @ [WriteIfChanged p c h f (Inr b)]\<rparr>)"
  by (auto simp: call_writeIfChanged_def split: prod.splits)

lemma log_each_stage_Inr:
  "(if b then console_log_each msgs else io_return ()) m = (Inr u, m1) \<longleftrightarrow>
     m1 = m\<lparr>console := console m @ (if b then msgs else [])\<rparr>"
  by (auto simp: console_log_each_eq io_return_def)

lemma log_stage_Inr:
  "(if b then console_log msg else io_return ()) m = (Inr u, m1) \<longleftrightarrow>
     m1 = m\<lparr>console := console m @ (if b then [msg] else [])\<rparr>"
  by (auto simp: console_log_def io_return_def)

lemma final_log_Inr:
  "(if b then console_log x else console_log y) m = (Inr u, m1) \<longleftrightarrow>
     m1 = m\<lparr>console := console m @ [if b then x else y]\<rparr>"
  by (auto simp: console_log_def)

lemma hash_file_stage_Inr:
  "(if sh then io_bind (call_writeIfChanged env p c h f)
                 (\<lambda>changed. if changed then console_log msg else io_return ())
    else io_return ()) m = (Inr u, m1) \<longleftrightarrow>
   (if sh then \<exists>c4 fs'. writeIfChanged env p c h f (filesys m) = (Inr c4, fs')
            \<and> m1 = m\<lparr>filesys := fs', calls := calls m @ [WriteIfChanged p c h f (Inr c4)],
                       console := console m @ (if c4 then [msg] else [])\<rparr>
    else m1 = m)"
  by (auto simp: io_bind_Inr call_writeIfChanged_Inr log_stage_Inr io_return_def)

lemmas stage_Inr = io_bind_Inr call_generateSvgSprite_Inr optimize_stage_Inr hash_stage_Inr
  call_writeIfChanged_Inr log_each_stage_Inr log_stage_Inr final_log_Inr hash_file_stage_Inr

lemma regenerate_Inr:
  assumes "regenerate env opts names m = (Inr u, m')"
  shows "\<exists>generated cfg output c1 c2 c3 c4 fs1 fs2 fs3.
     generateSvgSprite env (files opts) (inputDir opts) = Inr generated \<and>
     (if shouldOptimize opts
      then loadConfig env = Inr cfg \<and> optimize env generated cfg = Inr output
      else output = generated) \<and>
     writeIfChanged env (spriteFilepath opts) output (sprite_hash opts env output) (force opts) (filesys m)
       = (Inr c1, fs1) \<and>
     writeIfChanged env (typeOutputFilepath opts) (typeOutputContent names) None (force opts) fs1
       = (Inr c2, fs2) \<and>
     writeIfChanged env (iconsOutputFilepath opts) (iconsOutputContent names) None (force opts) fs2
       = (Inr c3, fs3) \<and>
     (if shouldHash opts
      then writeIfChanged env (hashOutputFilepath opts) (hashFileContent (sprite_hash opts env output))
             None (force opts) fs3 = (Inr c4, filesys m')
      else filesys m' = fs3) \<and>
     calls m' = calls m @ expected_calls opts env names generated cfg output c1 c2 c3 c4 \<and>
     console m' = console m @ expected_console opts env output c1 c2 c3 c4"
  using assms unfolding regenerate_def
  apply (simp only: stage_Inr)
  apply (cases "shouldOptimize opts"; cases "shouldHash opts")
     apply (clarsimp simp: expected_calls_def expected_console_def sprite_hash_def
              split del: if_split cong: if_cong)+
  done

subsection \<open>What every run does to the list of calls\<close>

lemma call_paths_append: "call_paths (xs @ ys) = call_paths xs @ call_paths ys"
  by (induction xs rule: call_paths.induct) auto

lemma appends_calls_bind:
  assumes "appends_calls S f" and "\<And>x. appends_calls S (g x)"
  shows "appends_calls S (io_bind f g)"
  unfolding appends_calls_def
proof
  fix m
  obtain r1 where r1: "calls (snd (f m)) = calls m @ r1" "set (call_paths r1) \<subseteq> S"
    using assms(1) unfolding appends_calls_def by blast
  show "\<exists>rest. calls (snd (io_bind f g m)) = calls m @ rest \<and> set (call_paths rest) \<subseteq> S"
  proof (cases "f m")
    case (Pair res m1)
    show ?thesis
    proof (cases res)
      case (Inl e)
      then show ?thesis using Pair r1 by (simp add: io_bind_def)
    next
      case (Inr x)
      obtain r2 where r2: "calls (snd (g x m1)) = calls m1 @ r2" "set (call_paths r2) \<subseteq> S"
        using assms(2)[of x] unfolding appends_calls_def by blast
      have "calls (snd (io_bind f g m)) = calls m @ (r1 @ r2)"
        using Pair Inr r1(1) r2(1) by (simp add: io_bind_def)
      moreover have "set (call_paths (r1 @ r2)) \<subseteq> S"
        using r1(2) r2(2) by (simp add: call_paths_append)
      ultimately show ?thesis by blast
    qed
  qed
qed

lemma appends_calls_if:
  "appends_calls S f \<Longrightarrow> appends_calls S g \<Longrightarrow> appends_calls S (if b then f else g)"
  by simp

lemma appends_calls_return: "appends_calls S (io_return x)"
  by (simp add: appends_calls_def io_return_def)

lemma appends_calls_log: "appends_calls S (console_log msg)"
  by (simp add: appends_calls_def console_log_def)

lemma appends_calls_log_each: "appends_calls S (console_log_each msgs)"
  by (simp add: appends_calls_def console_log_each_eq)

lemma appends_calls_generateSvgSprite: "appends_calls S (call_generateSvgSprite env fls dir)"
  by (simp add: appends_calls_def call_generateSvgSprite_def io_bind_def record_call_def io_result_def)

lemma appends_calls_loadConfig: "appends_calls S (call_loadConfig env)"
  by (simp add: appends_calls_def call_loadConfig_def io_bind_def record_call_def io_result_def)

lemma appends_calls_optimize: "appends_calls S (call_optimize env doc cfg)"
  by (simp add: appends_calls_def call_optimize_def io_bind_def record_call_def io_result_def)

lemma appends_calls_md5: "appends_calls S (call_md5 env s)"
  by (simp add: appends_calls_def call_md5_def io_bind_def record_call_def io_return_def)

lemma appends_calls_writeIfChanged: "p \<in> S \<Longrightarrow> appends_calls S (call_writeIfChanged env p c h frc)"
  by (simp add: appends_calls_def call_writeIfChanged_def split: prod.splits)

lemmas appends_calls_intros = appends_calls_bind appends_calls_if appends_calls_return
  appends_calls_log appends_calls_log_each appends_calls_generateSvgSprite appends_calls_loadConfig
  appends_calls_optimize appends_calls_md5 appends_calls_writeIfChanged

lemma regenerate_appends_calls: "appends_calls (targets opts) (regenerate env opts names)"
  unfolding regenerate_def
  by (intro appends_calls_intros) (simp_all add: targets_def)

subsection \<open>What every run leaves alone, and how a run starts\<close>

lemma keeps_disk_bind:
  assumes "keeps_disk S f" and "\<And>x. keeps_disk S (g x)"
  shows "keeps_disk S (io_bind f g)"
  unfolding keeps_disk_def
proof (intro allI impI)
  fix m q
  assume q: "q \<notin> S"
  have f: "disk (filesys (snd (f m))) q = disk (filesys m) q"
    using assms(1) q unfolding keeps_disk_def by blast
  show "disk (filesys (snd (io_bind f g m))) q = disk (filesys m) q"
  proof (cases "f m")
    case (Pair res m1)
    show ?thesis
    proof (cases res)
      case (Inl e)
      then show ?thesis using Pair f by (simp add: io_bind_def)
    next
      case (Inr x)
      have "disk (filesys (snd (g x m1))) q = disk (filesys m1) q"
        using assms(2)[of x] q unfolding keeps_disk_def by blast
      then show ?thesis using Pair Inr f by (simp add: io_bind_def)
    qed
  qed
qed

lemma keeps_disk_if:
  "keeps_disk S f \<Longrightarrow> keeps_disk S g \<Longrightarrow> keeps_disk S (if b then f else g)"
  by simp

lemma keeps_disk_return: "keeps_disk S (io_return x)"
  by (simp add: keeps_disk_def io_return_def)

lemma keeps_disk_log: "keeps_disk S (console_log msg)"
  by (simp add: keeps_disk_def console_log_def)

lemma keeps_disk_log_each: "keeps_disk S (console_log_each msgs)"
  by (simp add: keeps_disk_def console_log_each_eq)

lemma keeps_disk_generateSvgSprite: "keeps_disk S (call_generateSvgSprite env fls dir)"
  by (simp add: keeps_disk_def call_generateSvgSprite_def io_bind_def record_call_def io_result_def)

lemma keeps_disk_loadConfig: "keeps_disk S (call_loadConfig env)"
  by (simp add: keeps_disk_def call_loadConfig_def io_bind_def record_call_def io_result_def)

lemma keeps_disk_optimize: "keeps_disk S (call_optimize env doc cfg)"
  by (simp add: keeps_disk_def call_optimize_def io_bind_def record_call_def io_result_def)

lemma keeps_disk_md5: "keeps_disk S (call_md5 env s)"
  by (simp add: keeps_disk_def call_md5_def io_bind_def record_call_def io_return_def)

lemma keeps_disk_writeIfChanged:
  "writes_own_path (writeIfChanged env) \<Longrightarrow> p \<in> S \<Longrightarrow> keeps_disk S (call_writeIfChanged env p c h frc)"
  unfolding keeps_disk_def writes_own_path_def call_writeIfChanged_def
  by (auto split: prod.splits) (metis snd_conv)

lemmas keeps_disk_intros = keeps_disk_bind keeps_disk_if keeps_disk_return
  keeps_disk_log keeps_disk_log_each keeps_disk_generateSvgSprite keeps_disk_loadConfig
  keeps_disk_optimize keeps_disk_md5 keeps_disk_writeIfChanged

lemma regenerate_keeps_disk:
  "writes_own_path (writeIfChanged env) \<Longrightarrow> keeps_disk (targets opts) (regenerate env opts names)"
  unfolding regenerate_def
  by (intro keeps_disk_intros) (simp_all add: targets_def)

text \<open>generateIconFiles, by the outcome of its first steps\<close>

lemma generateIconFiles_dir_fault:
  "dir_fault (filesys m) (typesDir opts) = Some e \<Longrightarrow> generateIconFiles env opts m = (Inl e, m)"
  by (simp add: generateIconFiles_def io_bind_def ensureDir_def)

lemma generateIconFiles_upToDate:
  "dir_fault (filesys m) (typesDir opts) = None \<Longrightarrow> upToDate env opts (filesys m) \<Longrightarrow>
     generateIconFiles env opts m = (Inr (), m\<lparr>console := console m @ [IconsUpToDate]\<rparr>)"
  by (simp add: generateIconFiles_def io_bind_def ensureDir_def upToDate_def console_log_def)

lemma generateIconFiles_regenerate:
  "dir_fault (filesys m) (typesDir opts) = None \<Longrightarrow> \<not> upToDate env opts (filesys m) \<Longrightarrow>
     generateIconFiles env opts m = regenerate env opts (map (iconName env) (files opts)) m"
  by (auto simp: generateIconFiles_def io_bind_def ensureDir_def upToDate_def Let_def)

lemma first_call_bind:
  assumes "\<And>x. appends_calls S (g x)"
  shows "\<exists>rest. calls (snd (io_bind (call_generateSvgSprite env fls dir) g m))
      = calls m @ GenerateSvgSprite fls dir # rest"
proof (cases "generateSvgSprite env fls dir")
  case (Inl e)
  then show ?thesis
    by (simp add: io_bind_def call_generateSvgSprite_def record_call_def io_result_def)
next
  case (Inr x)
  obtain rest where
    "calls (snd (g x (m\<lparr>calls := calls m @ [GenerateSvgSprite fls dir]\<rparr>)))
       = (calls m @ [GenerateSvgSprite fls dir]) @ rest"
    using assms[of x] unfolding appends_calls_def by (metis select_convs(2) surjective update_convs(2))
  then show ?thesis using Inr
    by (simp add: io_bind_def call_generateSvgSprite_def record_call_def io_result_def)
qed

lemma regenerate_first_call:
  "\<exists>rest. calls (snd (regenerate env opts names m))
      = calls m @ GenerateSvgSprite (files opts) (inputDir opts) # rest"
  unfolding regenerate_def
  by (rule first_call_bind[where S = UNIV]) (intro appends_calls_intros; simp)

subsection \<open>The early return and the two reads before it\<close>

lemma not_upToDate_if_empty_text:
  assumes "files opts \<noteq> []"
    and "readFileOrEmpty d (spriteFilepath opts) = [] \<or> readFileOrEmpty d (typeOutputFilepath opts) = []"
  shows "\<not> upToDate env opts d"
proof -
  obtain f fls where f: "files opts = f # fls" using assms(1) by (cases "files opts") auto
  show ?thesis using assms(2)
    by (auto simp: upToDate_def spriteUpToDate_def typesUpToDate_def f)
qed

lemma run_regenerates:
  assumes "dir_fault d (typesDir opts) = None" and "\<not> upToDate env opts d"
  shows "run env opts d
           = regenerate env opts (map (iconName env) (files opts)) \<lparr>filesys = d, calls = [], console = []\<rparr>"
    and "\<exists>rest. calls (snd (run env opts d)) = GenerateSvgSprite (files opts) (inputDir opts) # rest"
proof -
  show r: "run env opts d
           = regenerate env opts (map (iconName env) (files opts)) \<lparr>filesys = d, calls = [], console = []\<rparr>"
    using assms by (simp add: run_def generateIconFiles_regenerate)
  show "\<exists>rest. calls (snd (run env opts d)) = GenerateSvgSprite (files opts) (inputDir opts) # rest"
    using regenerate_first_call[of env opts "map (iconName env) (files opts)"
        "\<lparr>filesys = d, calls = [], console = []\<rparr>"]
    by (simp add: r)
qed

text \<open>
  C10. With an empty list of files both tests of line 44 and line 47 hold for want of
  a name to test, so the function prints that the icons are up to date and returns:
  it calls none of its collaborators and leaves the disk as it is, whatever the three
  flags and whatever the files hold. (The one thing that runs before the tests is
  \<^verbatim>\<open>ensureDir\<close>; if it rejects, the function rejects with that error, having done
  nothing else.)
\<close>

theorem empty_files_up_to_date:
  assumes "files opts = []"
  shows "run env opts d =
           (case dir_fault d (typesDir opts) of
              None \<Rightarrow> (Inr (), \<lparr>filesys = d, calls = [], console = [IconsUpToDate]\<rparr>)
            | Some e \<Rightarrow> (Inl e, \<lparr>filesys = d, calls = [], console = []\<rparr>))"
  using assms
  by (simp add: run_def generateIconFiles_def io_bind_def ensureDir_def console_log_def
        spriteUpToDate_def typesUpToDate_def split: option.splits)

theorem empty_files_up_to_date_witness:
  "files (demo_options\<lparr>files := [], force := True\<rparr>) = []
   \<and> run demo_env (demo_options\<lparr>files := [], force := True\<rparr>) empty_disk
       = (Inr (), \<lparr>filesys = empty_disk, calls = [], console = [IconsUpToDate]\<rparr>)"
  using empty_files_up_to_date[of "demo_options\<lparr>files := [], force := True\<rparr>" demo_env empty_disk]
  by (simp add: empty_disk_def)

text \<open>
  C8. When the sprite or the type declarations are missing, the read of line 35 or of
  line 38 yields the empty text instead of an error; the empty text holds no
  identifier, so with at least one file the early return is not taken and the run
  goes on to assemble the sprite.
\<close>

theorem missing_artifact_triggers_regeneration:
  assumes "disk d (spriteFilepath opts) = Inl ENOENT \<or> disk d (typeOutputFilepath opts) = Inl ENOENT"
    and "files opts \<noteq> []"
    and "dir_fault d (typesDir opts) = None"
  shows "(readFileOrEmpty d (spriteFilepath opts) = [] \<or> readFileOrEmpty d (typeOutputFilepath opts) = [])
    \<and> \<not> upToDate env opts d
    \<and> run env opts d
         = regenerate env opts (map (iconName env) (files opts)) \<lparr>filesys = d, calls = [], console = []\<rparr>
    \<and> (\<exists>rest. calls (snd (run env opts d)) = GenerateSvgSprite (files opts) (inputDir opts) # rest)"
proof -
  have e: "readFileOrEmpty d (spriteFilepath opts) = [] \<or> readFileOrEmpty d (typeOutputFilepath opts) = []"
    using assms(1) by (auto simp: readFileOrEmpty_def readFile_def)
  then have n: "\<not> upToDate env opts d"
    using assms(2) by (rule not_upToDate_if_empty_text[rotated])
  show ?thesis using e n run_regenerates[OF assms(3) n] by simp
qed

theorem missing_artifact_triggers_regeneration_witness:
  "disk empty_disk (spriteFilepath demo_options) = Inl ENOENT
   \<and> files demo_options \<noteq> []
   \<and> dir_fault empty_disk (typesDir demo_options) = None
   \<and> readFileOrEmpty empty_disk (spriteFilepath demo_options) = []
   \<and> \<not> upToDate demo_env demo_options empty_disk
   \<and> (\<exists>rest. calls (snd (run demo_env demo_options empty_disk))
          = GenerateSvgSprite [''home.svg''] ''src/icons'' # rest)"
proof -
  have 1: "disk empty_disk (spriteFilepath demo_options) = Inl ENOENT
           \<or> disk empty_disk (typeOutputFilepath demo_options) = Inl ENOENT"
    by (simp add: empty_disk_def)
  have 2: "files demo_options \<noteq> []" by (simp add: demo_options_def)
  have 3: "dir_fault empty_disk (typesDir demo_options) = None" by (simp add: empty_disk_def)
  have 4: "readFileOrEmpty empty_disk (spriteFilepath demo_options) = []"
    by (simp add: readFileOrEmpty_def readFile_def empty_disk_def)
  have 5: "files demo_options = [''home.svg'']" "inputDir demo_options = ''src/icons''"
    by (simp_all add: demo_options_def)
  have "\<not> upToDate demo_env demo_options empty_disk
        \<and> (\<exists>rest. calls (snd (run demo_env demo_options empty_disk))
              = GenerateSvgSprite (files demo_options) (inputDir demo_options) # rest)"
    using missing_artifact_triggers_regeneration[OF 1 2 3, of demo_env] by blast
  moreover have "disk empty_disk (spriteFilepath demo_options) = Inl ENOENT"
    by (simp add: empty_disk_def)
  ultimately show ?thesis using 2 3 4 by (simp add: 5)
qed

text \<open>
  C9. The two reads of the staleness test swallow every failure, not only that of a
  missing file: whatever the error, the text is empty, the test fails (there being a
  file to look for) and the run goes on to assemble the sprite instead of rejecting.
\<close>

theorem staleness_reads_swallow_every_error:
  assumes "disk d (spriteFilepath opts) = Inl e \<or> disk d (typeOutputFilepath opts) = Inl e"
    and "files opts \<noteq> []"
    and "dir_fault d (typesDir opts) = None"
  shows "(readFileOrEmpty d (spriteFilepath opts) = [] \<or> readFileOrEmpty d (typeOutputFilepath opts) = [])
    \<and> \<not> upToDate env opts d
    \<and> run env opts d
         = regenerate env opts (map (iconName env) (files opts)) \<lparr>filesys = d, calls = [], console = []\<rparr>
    \<and> (\<exists>rest. calls (snd (run env opts d)) = GenerateSvgSprite (files opts) (inputDir opts) # rest)"
proof -
  have e: "readFileOrEmpty d (spriteFilepath opts) = [] \<or> readFileOrEmpty d (typeOutputFilepath opts) = []"
    using assms(1) by (auto simp: readFileOrEmpty_def readFile_def)
  then have n: "\<not> upToDate env opts d"
    using assms(2) by (rule not_upToDate_if_empty_text[rotated])
  show ?thesis using e n run_regenerates[OF assms(3) n] by simp
qed

theorem staleness_reads_swallow_every_error_witness:
  "disk unreadable_sprite_disk (spriteFilepath demo_options) = Inl EACCES
   \<and> files demo_options \<noteq> []
   \<and> dir_fault unreadable_sprite_disk (typesDir demo_options) = None
   \<and> readFileOrEmpty unreadable_sprite_disk (spriteFilepath demo_options) = []
   \<and> \<not> upToDate demo_env demo_options unreadable_sprite_disk
   \<and> (\<exists>rest. calls (snd (run demo_env demo_options unreadable_sprite_disk))
          = GenerateSvgSprite [''home.svg''] ''src/icons'' # rest)"
proof -
  have p: "spriteFilepath demo_options = ''public/sprite.svg''"
    by (simp add: spriteFilepath_def demo_options_def path_join_def normalize_def endsWith_def)
  have 0: "disk unreadable_sprite_disk (spriteFilepath demo_options) = Inl EACCES"
    by (simp add: p unreadable_sprite_disk_def)
  then have 1: "disk unreadable_sprite_disk (spriteFilepath demo_options) = Inl EACCES
           \<or> disk unreadable_sprite_disk (typeOutputFilepath demo_options) = Inl EACCES"
    by simp
  have 2: "files demo_options \<noteq> []" by (simp add: demo_options_def)
  have 3: "dir_fault unreadable_sprite_disk (typesDir demo_options) = None"
    by (simp add: unreadable_sprite_disk_def empty_disk_def)
  have 4: "readFileOrEmpty unreadable_sprite_disk (spriteFilepath demo_options) = []"
    by (simp add: readFileOrEmpty_def readFile_def 0)
  have 5: "files demo_options = [''home.svg'']" "inputDir demo_options = ''src/icons''"
    by (simp_all add: demo_options_def)
  have "\<not> upToDate demo_env demo_options unreadable_sprite_disk
        \<and> (\<exists>rest. calls (snd (run demo_env demo_options unreadable_sprite_disk))
              = GenerateSvgSprite (files demo_options) (inputDir demo_options) # rest)"
    using staleness_reads_swallow_every_error[OF 1 2 3, of demo_env] by blast
  then show ?thesis using 0 2 3 4 by (simp add: 5)
qed

subsection \<open>The last line printed\<close>

lemma changed_at_append: "changed_at p (xs @ ys) = (changed_at p xs \<or> changed_at p ys)"
  by (induction p xs rule: changed_at.induct) auto

lemma changed_at_expected_calls:
  "changed_at (spriteFilepath opts) (expected_calls opts env names generated cfg output c1 c2 c3 c4) = c1"
  "changed_at (typeOutputFilepath opts) (expected_calls opts env names generated cfg output c1 c2 c3 c4) = c2"
  "changed_at (iconsOutputFilepath opts) (expected_calls opts env names generated cfg output c1 c2 c3 c4) = c3"
  "changed_at (hashOutputFilepath opts) (expected_calls opts env names generated cfg output c1 c2 c3 c4)
     = (shouldHash opts \<and> c4)"
  using paths_distinct[of opts]
  by (auto simp: expected_calls_def changed_at_append)

lemma last_expected_console:
  "last (expected_console opts env output c1 c2 c3 c4)
     = (if c1 \<or> c2 \<or> c3 then GeneratedIcons (length (files opts)) else IconsUpToDate)"
  unfolding expected_console_def by (simp only: append_assoc[symmetric] last_snoc)

lemma run_Inr_dir_fault:
  assumes "run env opts d = (Inr u, m)"
  shows "dir_fault d (typesDir opts) = None"
proof (cases "dir_fault d (typesDir opts)")
  case (Some e)
  then show ?thesis using assms generateIconFiles_dir_fault[of "\<lparr>filesys = d, calls = [], console = []\<rparr>" opts e env]
    by (simp add: run_def)
qed simp

lemma run_Inr_regenerated:
  assumes "run env opts d = (Inr u, m)" and "\<not> upToDate env opts d"
  shows "\<exists>generated cfg output c1 c2 c3 c4 fs1 fs2 fs3.
     generateSvgSprite env (files opts) (inputDir opts) = Inr generated \<and>
     (if shouldOptimize opts
      then loadConfig env = Inr cfg \<and> optimize env generated cfg = Inr output
      else output = generated) \<and>
     writeIfChanged env (spriteFilepath opts) output (sprite_hash opts env output) (force opts) d
       = (Inr c1, fs1) \<and>
     writeIfChanged env (typeOutputFilepath opts) (typeOutputContent (map (iconName env) (files opts)))
       None (force opts) fs1 = (Inr c2, fs2) \<and>
     writeIfChanged env (iconsOutputFilepath opts) (iconsOutputContent (map (iconName env) (files opts)))
       None (force opts) fs2 = (Inr c3, fs3) \<and>
     (if shouldHash opts
      then writeIfChanged env (hashOutputFilepath opts) (hashFileContent (sprite_hash opts env output))
             None (force opts) fs3 = (Inr c4, filesys m)
      else filesys m = fs3) \<and>
     calls m = expected_calls opts env (map (iconName env) (files opts)) generated cfg output c1 c2 c3 c4 \<and>
     console m = expected_console opts env output c1 c2 c3 c4"
proof -
  have "regenerate env opts (map (iconName env) (files opts)) \<lparr>filesys = d, calls = [], console = []\<rparr>
          = (Inr u, m)"
    using assms run_regenerates(1)[OF run_Inr_dir_fault[OF assms(1)] assms(2)] by simp
  from regenerate_Inr[OF this] show ?thesis by simp
qed

text \<open>
  C1, as the code has it. In a run that regenerates and completes, the last line
  printed says that icons were generated exactly when the sprite, the type
  declarations or the identifier array changed; the flag of the hash module is local
  to the block of line 139 and is not part of the test of line 156.
\<close>

theorem report_is_or_of_three_flags:
  assumes "run env opts d = (Inr (), m)" and "\<not> upToDate env opts d"
  shows "last (console m) =
           (if changed_at (spriteFilepath opts) (calls m)
               \<or> changed_at (typeOutputFilepath opts) (calls m)
               \<or> changed_at (iconsOutputFilepath opts) (calls m)
            then GeneratedIcons (length (files opts)) else IconsUpToDate)"
proof -
  obtain generated cfg out c1 c2 c3 c4 where
    c: "calls m = expected_calls opts env (map (iconName env) (files opts)) generated cfg out c1 c2 c3 c4"
    and l: "console m = expected_console opts env out c1 c2 c3 c4"
    using run_Inr_regenerated[OF assms] by blast
  show ?thesis
    unfolding c l changed_at_expected_calls last_expected_console ..
qed

lemmas path_eval = spriteFilepath_def typesDir_def typeOutputFilepath_def iconsOutputFilepath_def
  hashOutputFilepath_def path_join_def normalize_def endsWith_def dirname_def

lemma demo_paths:
  "spriteFilepath demo_options = ''public/sprite.svg''"
  "typesDir demo_options = ''src/gen/types''"
  "typeOutputFilepath demo_options = ''src/gen/types/icon-name.d.ts''"
  "iconsOutputFilepath demo_options = ''src/gen/icons.ts''"
  "hashOutputFilepath demo_options = ''src/gen/hash.ts''"
  by (simp_all add: path_eval demo_options_def)

lemma demo_iconName_home: "iconName demo_env ''home.svg'' = ''home''"
  by (simp add: demo_env_def demo_iconName_def endsWith_def)

lemma demo_names: "map (iconName demo_env) (files demo_options) = [''home'']"
  by (simp add: demo_options_def demo_iconName_home)

lemma demo_not_upToDate: "\<not> upToDate demo_env demo_options disk_without_hash_module"
  by (simp add: upToDate_def demo_names demo_paths disk_without_hash_module_def empty_disk_def
      readFileOrEmpty_def readFile_def typesUpToDate_def spriteUpToDate_def typeOutputContent_def
      stringifiedIconNames_def JSON_stringify_def json_escape_def replace_dquotes_def)

lemmas io_eval = io_bind_def io_return_def io_result_def record_call_def console_log_def
  call_generateSvgSprite_def call_loadConfig_def call_optimize_def call_md5_def
  call_writeIfChanged_def console_log_each_eq

lemma demo_digest_sprite: "demo_digest ''<svg><symbol id=home/></svg>'' = ''1c''"
  by (simp add: demo_digest_def hex_digit_def)

lemma demo_run_without_hash_module:
  "\<exists>fs'. run demo_env demo_options disk_without_hash_module =
     (Inr (), \<lparr>filesys = fs',
        calls = [GenerateSvgSprite [''home.svg''] ''src/icons'',
                 CreateHash ''<svg><symbol id=home/></svg>'',
                 WriteIfChanged ''public/sprite.svg'' ''<svg><symbol id=home/></svg>'' (Some ''1c'') False (Inr False),
                 WriteIfChanged ''src/gen/types/icon-name.d.ts'' (typeOutputContent [''home'']) None False (Inr False),
                 WriteIfChanged ''src/gen/icons.ts'' (iconsOutputContent [''home'']) None False (Inr False),
                 WriteIfChanged ''src/gen/hash.ts'' (hashFileContent (Some ''1c'')) None False (Inr True)],
        console = [HashFileSavedTo ''src/gen/hash.ts'', IconsUpToDate]\<rparr>)"
proof -
  have d: "dir_fault disk_without_hash_module (typesDir demo_options) = None"
    by (simp add: disk_without_hash_module_def empty_disk_def)
  have g: "generateSvgSprite demo_env [''home.svg''] ''src/icons'' = Inr ''<svg><symbol id=home/></svg>''"
    by (simp add: demo_env_def demo_iconName_def endsWith_def)
  have o: "files demo_options = [''home.svg'']" "inputDir demo_options = ''src/icons''"
    "shouldOptimize demo_options = False" "shouldHash demo_options = True" "force demo_options = False"
    by (simp_all add: demo_options_def)
  have e: "md5 demo_env = demo_digest" "writeIfChanged demo_env = writeIfChanged_spec demo_digest"
    by (simp_all add: demo_env_def)
  show ?thesis
    unfolding run_regenerates(1)[OF d demo_not_upToDate] demo_names regenerate_def demo_paths o
    by (simp add: io_eval g e demo_digest_sprite writeIfChanged_spec_def readFile_def ensureDir_def
        writeFile_def disk_without_hash_module_def empty_disk_def template_hash_def dirname_def
        demo_iconName_home hashFileContent_def)
qed

lemma demo_run_empty_disk:
  "\<exists>fs'. run demo_env demo_options empty_disk =
     (Inr (), \<lparr>filesys = fs',
        calls = [GenerateSvgSprite [''home.svg''] ''src/icons'',
                 CreateHash ''<svg><symbol id=home/></svg>'',
                 WriteIfChanged ''public/sprite.svg'' ''<svg><symbol id=home/></svg>'' (Some ''1c'') False (Inr True),
                 WriteIfChanged ''src/gen/types/icon-name.d.ts'' (typeOutputContent [''home'']) None False (Inr True),
                 WriteIfChanged ''src/gen/icons.ts'' (iconsOutputContent [''home'']) None False (Inr True),
                 WriteIfChanged ''src/gen/hash.ts'' (hashFileContent (Some ''1c'')) None False (Inr True)],
        console = [GeneratingSprite ''src/icons'', Processed ''home.svg'',
                   FileSize ''<svg><symbol id=home/></svg>'', SpriteHash ''1c'',
                   SavedTo ''public/sprite.1c.svg'', TypesSavedTo ''src/gen/types/icon-name.d.ts'',
                   IconNamesSavedTo ''src/gen/icons.ts'', HashFileSavedTo ''src/gen/hash.ts'',
                   GeneratedIcons 1]\<rparr>)"
proof -
  have d: "dir_fault empty_disk (typesDir demo_options) = None"
    by (simp add: empty_disk_def)
  have n: "\<not> upToDate demo_env demo_options empty_disk"
    by (rule not_upToDate_if_empty_text)
       (simp_all add: demo_options_def readFileOrEmpty_def readFile_def empty_disk_def)
  have g: "generateSvgSprite demo_env [''home.svg''] ''src/icons'' = Inr ''<svg><symbol id=home/></svg>''"
    by (simp add: demo_env_def demo_iconName_def endsWith_def)
  have o: "files demo_options = [''home.svg'']" "inputDir demo_options = ''src/icons''"
    "shouldOptimize demo_options = False" "shouldHash demo_options = True" "force demo_options = False"
    by (simp_all add: demo_options_def)
  have e: "md5 demo_env = demo_digest" "writeIfChanged demo_env = writeIfChanged_spec demo_digest"
    by (simp_all add: demo_env_def)
  show ?thesis
    unfolding run_regenerates(1)[OF d n] demo_names regenerate_def demo_paths o
    by (simp add: io_eval g e demo_digest_sprite writeIfChanged_spec_def readFile_def ensureDir_def
        writeFile_def empty_disk_def template_hash_def dirname_def
        demo_iconName_home hashFileContent_def typeOutputContent_def iconsOutputContent_def
        replace_svg_ext_def endsWith_def)
qed

text \<open>
  C1 as stated fails. Sprite, type declarations and identifier array are on disk as
  the run would write them and the hash module is missing: the only write that
  reports a change is that of the hash module, and the last line printed says that
  the icons are up to date.
\<close>

theorem hash_module_flag_not_reported:
  "fst (run demo_env demo_options disk_without_hash_module) = Inr ()
   \<and> \<not> upToDate demo_env demo_options disk_without_hash_module
   \<and> changed_at (hashOutputFilepath demo_options)
         (calls (snd (run demo_env demo_options disk_without_hash_module)))
   \<and> last (console (snd (run demo_env demo_options disk_without_hash_module))) = IconsUpToDate"
  using demo_run_without_hash_module demo_not_upToDate
  by (auto simp: demo_paths)

theorem report_is_or_of_three_flags_witness:
  "run demo_env demo_options empty_disk = (Inr (), snd (run demo_env demo_options empty_disk))
   \<and> \<not> upToDate demo_env demo_options empty_disk
   \<and> changed_at (spriteFilepath demo_options) (calls (snd (run demo_env demo_options empty_disk)))
   \<and> last (console (snd (run demo_env demo_options empty_disk))) = GeneratedIcons 1"
proof -
  have r: "run demo_env demo_options empty_disk = (Inr (), snd (run demo_env demo_options empty_disk))"
    using demo_run_empty_disk by auto
  have n: "\<not> upToDate demo_env demo_options empty_disk"
    by (rule not_upToDate_if_empty_text)
       (simp_all add: demo_options_def readFileOrEmpty_def readFile_def empty_disk_def)
  have c: "changed_at (spriteFilepath demo_options) (calls (snd (run demo_env demo_options empty_disk)))"
    using demo_run_empty_disk by (auto simp: demo_paths)
  have "last (console (snd (run demo_env demo_options empty_disk))) = GeneratedIcons (length (files demo_options))"
    using report_is_or_of_three_flags[OF r n] c by simp
  then show ?thesis using r n c by (simp add: demo_options_def)
qed

subsection \<open>The hash module\<close>

lemma contents_for_append: "contents_for p (xs @ ys) = contents_for p xs @ contents_for p ys"
  by (induction p xs rule: contents_for.induct) auto

lemma hashed_inputs_append: "hashed_inputs (xs @ ys) = hashed_inputs xs @ hashed_inputs ys"
  by (induction xs rule: hashed_inputs.induct) auto

lemma contents_for_expected_calls:
  "contents_for (spriteFilepath opts) (expected_calls opts env names generated cfg output c1 c2 c3 c4)
     = [output]"
  "contents_for (hashOutputFilepath opts) (expected_calls opts env names generated cfg output c1 c2 c3 c4)
     = (if shouldHash opts then [hashFileContent (sprite_hash opts env output)] else [])"
  using paths_distinct[of opts]
  by (auto simp: expected_calls_def contents_for_append)

lemma hashed_inputs_expected_calls:
  "hashed_inputs (expected_calls opts env names generated cfg output c1 c2 c3 c4)
     = (if shouldHash opts then [output] else [])"
  by (simp add: expected_calls_def hashed_inputs_append)

text \<open>
  C7. In a run that regenerates and completes, the text handed to the sprite write is
  the assembled document, after svgo when optimising. With \<open>shouldHash\<close> exactly one
  digest is computed, of that text, and the hash module is one write to
  \<^verbatim>\<open>hash.ts\<close> of the exported constant holding that digest; without \<open>shouldHash\<close>
  no digest is computed and no write goes to \<^verbatim>\<open>hash.ts\<close>.
\<close>

theorem hash_module_exactly_when_hashing:
  assumes "run env opts d = (Inr (), m)" and "\<not> upToDate env opts d"
  shows "\<exists>generated cfg out.
     generateSvgSprite env (files opts) (inputDir opts) = Inr generated
     \<and> (if shouldOptimize opts
        then loadConfig env = Inr cfg \<and> optimize env generated cfg = Inr out
        else out = generated)
     \<and> contents_for (spriteFilepath opts) (calls m) = [out]
     \<and> hashed_inputs (calls m) = (if shouldHash opts then [out] else [])
     \<and> contents_for (hashOutputFilepath opts) (calls m)
         = (if shouldHash opts
            then [''export const hash = '' @ [squote] @ md5 env out @ [squote] @ '';'' @ [newline]]
            else [])"
proof -
  obtain generated cfg out c1 c2 c3 c4 where
    g: "generateSvgSprite env (files opts) (inputDir opts) = Inr generated"
    and o: "if shouldOptimize opts
        then loadConfig env = Inr cfg \<and> optimize env generated cfg = Inr out
        else out = generated"
    and c: "calls m = expected_calls opts env (map (iconName env) (files opts)) generated cfg out c1 c2 c3 c4"
    using run_Inr_regenerated[OF assms] by blast
  have h: "shouldHash opts \<Longrightarrow> hashFileContent (sprite_hash opts env out)
          = ''export const hash = '' @ [squote] @ md5 env out @ [squote] @ '';'' @ [newline]"
    by (simp add: hashFileContent_def sprite_hash_def template_hash_def)
  show ?thesis
    using g o h unfolding c contents_for_expected_calls hashed_inputs_expected_calls
    by (intro exI[of _ generated] exI[of _ cfg] exI[of _ out]) simp
qed

theorem hash_module_exactly_when_hashing_witness:
  "run demo_env demo_options empty_disk = (Inr (), snd (run demo_env demo_options empty_disk))
   \<and> \<not> upToDate demo_env demo_options empty_disk
   \<and> hashed_inputs (calls (snd (run demo_env demo_options empty_disk)))
       = [''<svg><symbol id=home/></svg>'']
   \<and> contents_for (hashOutputFilepath demo_options) (calls (snd (run demo_env demo_options empty_disk)))
       = [''export const hash = '' @ [squote] @ ''1c'' @ [squote] @ '';'' @ [newline]]"
proof -
  have r: "run demo_env demo_options empty_disk = (Inr (), snd (run demo_env demo_options empty_disk))"
    using demo_run_empty_disk by auto
  have n: "\<not> upToDate demo_env demo_options empty_disk"
    by (rule not_upToDate_if_empty_text)
       (simp_all add: demo_options_def readFileOrEmpty_def readFile_def empty_disk_def)
  obtain generated cfg out where
    g: "generateSvgSprite demo_env (files demo_options) (inputDir demo_options) = Inr generated"
    and o: "if shouldOptimize demo_options
        then loadConfig demo_env = Inr cfg \<and> optimize demo_env generated cfg = Inr out
        else out = generated"
    and h: "hashed_inputs (calls (snd (run demo_env demo_options empty_disk)))
              = (if shouldHash demo_options then [out] else [])"
    and c: "contents_for (hashOutputFilepath demo_options) (calls (snd (run demo_env demo_options empty_disk)))
         = (if shouldHash demo_options
            then [''export const hash = '' @ [squote] @ md5 demo_env out @ [squote] @ '';'' @ [newline]]
            else [])"
    using hash_module_exactly_when_hashing[OF r n] by blast
  have "out = ''<svg><symbol id=home/></svg>''"
    using g o by (simp add: demo_options_def demo_env_def demo_iconName_def endsWith_def)
  then show ?thesis
    using r n h c by (simp add: demo_options_def demo_env_def demo_digest_sprite)
qed

subsection \<open>The name with the hash in it\<close>

lemma writeIfChanged_spec_own_path: "writes_own_path (writeIfChanged_spec hashOf)"
  unfolding writes_own_path_def writeIfChanged_spec_def writeFile_def
  by (auto split: sum.splits option.splits if_splits prod.splits)

lemma generateIconFiles_appends_calls: "appends_calls (targets opts) (generateIconFiles env opts)"
  unfolding generateIconFiles_def Let_def
proof (intro appends_calls_bind appends_calls_if appends_calls_log regenerate_appends_calls)
  show "appends_calls (targets opts) (\<lambda>m. (ensureDir (filesys m) (typesDir opts), m))"
    by (simp add: appends_calls_def)
  show "appends_calls (targets opts) (\<lambda>m. (Inr (readFileOrEmpty (filesys m) (spriteFilepath opts)), m))"
    by (simp add: appends_calls_def)
  show "\<And>x. appends_calls (targets opts) (\<lambda>m. (Inr (readFileOrEmpty (filesys m) (typeOutputFilepath opts)), m))"
    by (simp add: appends_calls_def)
qed

lemma generateIconFiles_keeps_disk:
  assumes "writes_own_path (writeIfChanged env)"
  shows "keeps_disk (targets opts) (generateIconFiles env opts)"
  unfolding generateIconFiles_def Let_def
proof (intro keeps_disk_bind keeps_disk_if keeps_disk_log regenerate_keeps_disk assms)
  show "keeps_disk (targets opts) (\<lambda>m. (ensureDir (filesys m) (typesDir opts), m))"
    by (simp add: keeps_disk_def)
  show "keeps_disk (targets opts) (\<lambda>m. (Inr (readFileOrEmpty (filesys m) (spriteFilepath opts)), m))"
    by (simp add: keeps_disk_def)
  show "\<And>x. keeps_disk (targets opts) (\<lambda>m. (Inr (readFileOrEmpty (filesys m) (typeOutputFilepath opts)), m))"
    by (simp add: keeps_disk_def)
qed

lemma SavedTo_in_expected_console:
  "shouldHash opts \<Longrightarrow> c1 \<Longrightarrow>
     SavedTo (replace_svg_ext (spriteFilepath opts) (md5 env output))
       \<in> set (expected_console opts env output c1 c2 c3 c4)"
  by (simp add: expected_console_def sprite_hash_def template_hash_def)

text \<open>
  C6. Every call of \<^verbatim>\<open>writeIfChanged\<close> a run makes, completed or not, goes to one of
  the four fixed paths, and the name with the hash in it is none of them, whatever the
  hash. So, with a writer that touches no path but the one it is given, what is at
  \<^verbatim>\<open>sprite.<hash>.svg\<close> after the run is what was there before: where there was no
  such file there is none. With \<open>shouldHash\<close> the name is printed, in the line that
  says where the sprite was saved, when the sprite write reports a change.
\<close>

theorem hashed_sprite_name_is_only_reported:
  assumes "writes_own_path (writeIfChanged env)"
  shows "set (call_paths (calls (snd (run env opts d)))) \<subseteq> targets opts
    \<and> replace_svg_ext (spriteFilepath opts) h \<notin> targets opts
    \<and> disk (filesys (snd (run env opts d))) (replace_svg_ext (spriteFilepath opts) h)
        = disk d (replace_svg_ext (spriteFilepath opts) h)
    \<and> (\<forall>m. run env opts d = (Inr (), m) \<and> \<not> upToDate env opts d \<and> shouldHash opts
            \<and> changed_at (spriteFilepath opts) (calls m)
          \<longrightarrow> (\<exists>out. contents_for (spriteFilepath opts) (calls m) = [out]
                 \<and> SavedTo (replace_svg_ext (spriteFilepath opts) (md5 env out)) \<in> set (console m)))"
proof (intro conjI allI impI)
  show "set (call_paths (calls (snd (run env opts d)))) \<subseteq> targets opts"
    using generateIconFiles_appends_calls[of opts env]
    unfolding appends_calls_def run_def
    by (metis append_Nil machine.select_convs(2))
  show fresh: "replace_svg_ext (spriteFilepath opts) h \<notin> targets opts"
    using hashed_name_fresh[of opts h] by (simp add: targets_def)
  show "disk (filesys (snd (run env opts d))) (replace_svg_ext (spriteFilepath opts) h)
        = disk d (replace_svg_ext (spriteFilepath opts) h)"
    using generateIconFiles_keeps_disk[OF assms, of opts] fresh
    unfolding keeps_disk_def run_def
    by (metis machine.select_convs(1))
next
  fix m
  assume a: "run env opts d = (Inr (), m) \<and> \<not> upToDate env opts d \<and> shouldHash opts
            \<and> changed_at (spriteFilepath opts) (calls m)"
  obtain generated cfg out c1 c2 c3 c4 where
    c: "calls m = expected_calls opts env (map (iconName env) (files opts)) generated cfg out c1 c2 c3 c4"
    and l: "console m = expected_console opts env out c1 c2 c3 c4"
    using run_Inr_regenerated[of env opts d "()" m] a by blast
  have c1 using a unfolding c changed_at_expected_calls by simp
  then show "\<exists>out. contents_for (spriteFilepath opts) (calls m) = [out]
                 \<and> SavedTo (replace_svg_ext (spriteFilepath opts) (md5 env out)) \<in> set (console m)"
    using a SavedTo_in_expected_console[of opts c1 env out c2 c3 c4]
    unfolding c l contents_for_expected_calls by blast
qed

theorem hashed_sprite_name_is_only_reported_witness:
  "writes_own_path (writeIfChanged demo_env)
   \<and> set (call_paths (calls (snd (run demo_env demo_options empty_disk)))) \<subseteq> targets demo_options
   \<and> replace_svg_ext (spriteFilepath demo_options) ''1c'' = ''public/sprite.1c.svg''
   \<and> ''public/sprite.1c.svg'' \<notin> targets demo_options
   \<and> disk (filesys (snd (run demo_env demo_options empty_disk))) ''public/sprite.1c.svg'' = Inl ENOENT
   \<and> SavedTo ''public/sprite.1c.svg'' \<in> set (console (snd (run demo_env demo_options empty_disk)))"
proof -
  have w: "writes_own_path (writeIfChanged demo_env)"
    by (simp add: demo_env_def writeIfChanged_spec_own_path)
  have p: "replace_svg_ext (spriteFilepath demo_options) ''1c'' = ''public/sprite.1c.svg''"
    by (simp add: demo_paths replace_svg_ext_def endsWith_def)
  have "set (call_paths (calls (snd (run demo_env demo_options empty_disk)))) \<subseteq> targets demo_options
    \<and> replace_svg_ext (spriteFilepath demo_options) ''1c'' \<notin> targets demo_options
    \<and> disk (filesys (snd (run demo_env demo_options empty_disk)))
          (replace_svg_ext (spriteFilepath demo_options) ''1c'')
        = disk empty_disk (replace_svg_ext (spriteFilepath demo_options) ''1c'')"
    using hashed_sprite_name_is_only_reported[OF w, of demo_options empty_disk "''1c''"] by blast
  moreover have "disk empty_disk ''public/sprite.1c.svg'' = Inl ENOENT"
    by (simp add: empty_disk_def)
  moreover have "SavedTo ''public/sprite.1c.svg'' \<in> set (console (snd (run demo_env demo_options empty_disk)))"
    using demo_run_empty_disk by auto
  ultimately show ?thesis using w p by simp
qed

subsection \<open>What the staleness test recognises\<close>

lemma startsWith_set: "startsWith s pat \<Longrightarrow> set pat \<subseteq> set s"
  by (induction s pat rule: startsWith.induct) auto

lemma str_includes_set: "str_includes s pat \<Longrightarrow> set pat \<subseteq> set s"
proof (induction s)
  case Nil
  then show ?case by simp
next
  case (Cons c s)
  then show ?case using startsWith_set[of "c # s" pat] by auto
qed

lemma no_dquote_in_typeOutputContent: "dquote \<notin> set (typeOutputContent names)"
  by (auto simp: typeOutputContent_def replace_dquotes_def)

lemma typesUpToDate_own_output:
  "names \<noteq> [] \<Longrightarrow> \<not> typesUpToDate names (typeOutputContent names')"
proof -
  assume "names \<noteq> []"
  then obtain n ns where n: "names = n # ns" by (cases names) auto
  have "\<not> str_includes (typeOutputContent names') ([dquote] @ n @ [dquote])"
    using str_includes_set[of "typeOutputContent names'" "[dquote] @ n @ [dquote]"]
      no_dquote_in_typeOutputContent[of names'] by auto
  then show ?thesis by (simp add: typesUpToDate_def n)
qed

lemma not_upToDate_own_types:
  assumes "files opts \<noteq> []"
    and "disk d (typeOutputFilepath opts) = Inr (typeOutputContent names')"
  shows "\<not> upToDate env opts d"
  using assms typesUpToDate_own_output[of "map (iconName env) (files opts)" names']
  by (simp add: upToDate_def readFileOrEmpty_def readFile_def)

text \<open>
  C2 at its failing input. The sprite on disk holds \<^verbatim>\<open>id=home\<close> and the type
  declarations on disk hold the single-quoted literal \<^verbatim>\<open>'home'\<close>, as line 101 writes
  it; the test of line 47 looks for the double-quoted \<^verbatim>\<open>"home"\<close>, does not find it,
  and the run assembles the sprite again instead of returning early.
\<close>

theorem single_quoted_types_not_recognised:
  "spriteUpToDate [''home''] ''<svg><symbol id=home/></svg>''
   \<and> str_includes (typeOutputContent [''home'']) ([squote] @ ''home'' @ [squote])
   \<and> \<not> typesUpToDate [''home''] (typeOutputContent [''home''])
   \<and> \<not> upToDate demo_env demo_options disk_after_run
   \<and> hd (calls (snd (run demo_env demo_options disk_after_run)))
       = GenerateSvgSprite [''home.svg''] ''src/icons''
   \<and> calls (snd (run demo_env demo_options disk_after_run)) \<noteq> []"
proof -
  have 1: "spriteUpToDate [''home''] ''<svg><symbol id=home/></svg>''"
    by (simp add: spriteUpToDate_def)
  have 2: "str_includes (typeOutputContent [''home'']) ([squote] @ ''home'' @ [squote])"
    by (simp add: typeOutputContent_def stringifiedIconNames_def JSON_stringify_def json_escape_def
        replace_dquotes_def)
  have 3: "\<not> typesUpToDate [''home''] (typeOutputContent [''home''])"
    by (rule typesUpToDate_own_output) simp
  have d: "dir_fault disk_after_run (typesDir demo_options) = None"
    by (simp add: disk_after_run_def empty_disk_def)
  have 4: "\<not> upToDate demo_env demo_options disk_after_run"
    by (rule not_upToDate_own_types[where names' = "[''home'']"])
       (simp_all add: demo_options_def demo_paths[unfolded demo_options_def] disk_after_run_def)
  obtain rest where "calls (snd (run demo_env demo_options disk_after_run))
      = GenerateSvgSprite (files demo_options) (inputDir demo_options) # rest"
    using run_regenerates(2)[OF d 4] by blast
  then show ?thesis
    using 1 2 3 4 by (simp add: demo_options_def)
qed

subsection \<open>Running forward\<close>

lemma final_output_Inr:
  "final_output env opts = Inr out \<longleftrightarrow>
     (\<exists>generated cfg. generateSvgSprite env (files opts) (inputDir opts) = Inr generated
        \<and> (if shouldOptimize opts
           then loadConfig env = Inr cfg \<and> optimize env generated cfg = Inr out
           else out = generated))"
  by (auto simp: final_output_def split: sum.splits)

lemma regenerate_InrI:
  assumes "generateSvgSprite env (files opts) (inputDir opts) = Inr generated"
    and "if shouldOptimize opts
         then loadConfig env = Inr cfg \<and> optimize env generated cfg = Inr out
         else out = generated"
    and "writeIfChanged env (spriteFilepath opts) out (sprite_hash opts env out) (force opts) (filesys m)
           = (Inr c1, fs1)"
    and "writeIfChanged env (typeOutputFilepath opts) (typeOutputContent names) None (force opts) fs1
           = (Inr c2, fs2)"
    and "writeIfChanged env (iconsOutputFilepath opts) (iconsOutputContent names) None (force opts) fs2
           = (Inr c3, fs3)"
    and "if shouldHash opts
         then writeIfChanged env (hashOutputFilepath opts) (hashFileContent (sprite_hash opts env out))
                None (force opts) fs3 = (Inr c4, fs4)
         else fs4 = fs3"
  shows "regenerate env opts names m =
           (Inr (), m\<lparr>filesys := fs4,
                      calls := calls m @ expected_calls opts env names generated cfg out c1 c2 c3 c4,
                      console := console m @ expected_console opts env out c1 c2 c3 c4\<rparr>)"
  using assms unfolding regenerate_def
  apply (simp only: stage_Inr)
  apply (cases "shouldOptimize opts"; cases "shouldHash opts")
     apply (simp_all add: expected_calls_def expected_console_def sprite_hash_def
              split del: if_split cong: if_cong)
  done

subsection \<open>Forced runs\<close>

lemma write_results_append: "write_results (xs @ ys) = write_results xs @ write_results ys"
  by (induction xs rule: write_results.induct) auto

lemma write_results_expected_calls:
  "write_results (expected_calls opts env names generated cfg out c1 c2 c3 c4)
     = [Inr c1, Inr c2, Inr c3] @ (if shouldHash opts then [Inr c4] else [])"
  by (simp add: expected_calls_def write_results_append)

lemma writeIfChanged_spec_force:
  assumes "disk d p = Inr s \<or> disk d p = Inl ENOENT"
    and "dir_fault d (dirname p) = None" and "write_fault d p = None"
  shows "writeIfChanged_spec hashOf p c h True d
           = (Inr True, d\<lparr>disk := (disk d)(p := Inr c), journal := journal d @ [(p, c)]\<rparr>)"
  using assms by (auto simp: writeIfChanged_spec_def readFile_def ensureDir_def writeFile_def)

lemma forced_run:
  assumes w: "writeIfChanged env = writeIfChanged_spec (md5 env)"
    and f: "force opts"
    and n: "\<not> upToDate env opts d"
    and out: "final_output env opts = Inr out"
    and ok: "\<forall>(p, c) \<in> set (fresh_artifacts env opts out). (\<exists>s. disk d p = Inr s) \<or> disk d p = Inl ENOENT"
    and df: "dir_fault d = (\<lambda>p. None)"
    and wf: "write_fault d = (\<lambda>p. None)"
  shows "\<exists>m. run env opts d = (Inr (), m)
          \<and> journal (filesys m) = journal d @ fresh_artifacts env opts out
          \<and> write_results (calls m) = map (\<lambda>a. Inr True) (fresh_artifacts env opts out)
          \<and> last (console m) = GeneratedIcons (length (files opts))
          \<and> (\<forall>(p, c) \<in> set (fresh_artifacts env opts out). disk (filesys m) p = Inr c)
          \<and> dir_fault (filesys m) = (\<lambda>p. None) \<and> write_fault (filesys m) = (\<lambda>p. None)"
proof -
  define names where "names = map (iconName env) (files opts)"
  define h where "h = sprite_hash opts env out"
  have s1: "(\<exists>s. disk d (spriteFilepath opts) = Inr s) \<or> disk d (spriteFilepath opts) = Inl ENOENT"
    and s2: "(\<exists>s. disk d (typeOutputFilepath opts) = Inr s) \<or> disk d (typeOutputFilepath opts) = Inl ENOENT"
    and s3: "(\<exists>s. disk d (iconsOutputFilepath opts) = Inr s) \<or> disk d (iconsOutputFilepath opts) = Inl ENOENT"
    and s4: "shouldHash opts \<Longrightarrow>
           (\<exists>s. disk d (hashOutputFilepath opts) = Inr s) \<or> disk d (hashOutputFilepath opts) = Inl ENOENT"
    using ok by (simp_all add: fresh_artifacts_def)
  obtain generated cfg where
    g: "generateSvgSprite env (files opts) (inputDir opts) = Inr generated"
    and o: "if shouldOptimize opts
            then loadConfig env = Inr cfg \<and> optimize env generated cfg = Inr out
            else out = generated"
    using out unfolding final_output_Inr by blast
  define d1 where "d1 = d\<lparr>disk := (disk d)(spriteFilepath opts := Inr out),
                          journal := journal d @ [(spriteFilepath opts, out)]\<rparr>"
  define d2 where "d2 = d1\<lparr>disk := (disk d1)(typeOutputFilepath opts := Inr (typeOutputContent names)),
                          journal := journal d1 @ [(typeOutputFilepath opts, typeOutputContent names)]\<rparr>"
  define d3 where "d3 = d2\<lparr>disk := (disk d2)(iconsOutputFilepath opts := Inr (iconsOutputContent names)),
                          journal := journal d2 @ [(iconsOutputFilepath opts, iconsOutputContent names)]\<rparr>"
  define d4 where "d4 = (if shouldHash opts
       then d3\<lparr>disk := (disk d3)(hashOutputFilepath opts := Inr (hashFileContent h)),
               journal := journal d3 @ [(hashOutputFilepath opts, hashFileContent h)]\<rparr>
       else d3)"
  have w1: "writeIfChanged env (spriteFilepath opts) out h (force opts) d = (Inr True, d1)"
    unfolding w d1_def using f s1 df wf by (auto simp: writeIfChanged_spec_force)
  have "(\<exists>s. disk d1 (typeOutputFilepath opts) = Inr s) \<or> disk d1 (typeOutputFilepath opts) = Inl ENOENT"
    using s2 by (simp add: d1_def)
  then have w2: "writeIfChanged env (typeOutputFilepath opts) (typeOutputContent names) None (force opts) d1
                   = (Inr True, d2)"
    unfolding w d2_def using f df wf by (auto simp: writeIfChanged_spec_force d1_def)
  have "(\<exists>s. disk d2 (iconsOutputFilepath opts) = Inr s) \<or> disk d2 (iconsOutputFilepath opts) = Inl ENOENT"
    using s3 by (simp add: d1_def d2_def)
  then have w3: "writeIfChanged env (iconsOutputFilepath opts) (iconsOutputContent names) None (force opts) d2
                   = (Inr True, d3)"
    unfolding w d3_def using f df wf by (auto simp: writeIfChanged_spec_force d1_def d2_def)
  have "shouldHash opts \<Longrightarrow>
          (\<exists>s. disk d3 (hashOutputFilepath opts) = Inr s) \<or> disk d3 (hashOutputFilepath opts) = Inl ENOENT"
    using s4 by (simp add: d1_def d2_def d3_def)
  then have w4: "if shouldHash opts
         then writeIfChanged env (hashOutputFilepath opts) (hashFileContent h) None (force opts) d3
                = (Inr True, d4)
         else d4 = d3"
    unfolding w d4_def using f df wf by (auto simp: writeIfChanged_spec_force d1_def d2_def d3_def)
  define m0 where "m0 = \<lparr>filesys = d, calls = [], console = []\<rparr>"
  have d0: "dir_fault d (typesDir opts) = None" using df by simp
  have r: "run env opts d = regenerate env opts names m0"
    unfolding names_def m0_def using run_regenerates(1)[OF d0 n] .
  have "regenerate env opts names m0 =
           (Inr (), m0\<lparr>filesys := d4,
                      calls := calls m0 @ expected_calls opts env names generated cfg out True True True True,
                      console := console m0 @ expected_console opts env out True True True True\<rparr>)"
    by (rule regenerate_InrI[OF g o _ w2 w3])
       (use w1[unfolded h_def] w4[unfolded h_def] in \<open>simp_all add: m0_def\<close>)
  moreover have "journal d4 = journal d @ fresh_artifacts env opts out"
    by (simp add: d4_def d3_def d2_def d1_def fresh_artifacts_def names_def h_def)
  moreover have "\<forall>(p, c) \<in> set (fresh_artifacts env opts out). disk d4 p = Inr c"
    using paths_distinct[of opts]
    by (auto simp: d4_def d3_def d2_def d1_def fresh_artifacts_def names_def h_def)
  moreover have "dir_fault d4 = (\<lambda>p. None)" "write_fault d4 = (\<lambda>p. None)"
    using df wf by (simp_all add: d4_def d3_def d2_def d1_def)
  ultimately show ?thesis
    using r by (simp add: write_results_expected_calls fresh_artifacts_def m0_def last_expected_console)
qed

text \<open>
  C4. The four artifacts (three without \<open>shouldHash\<close>) are on disk with exactly the
  texts the run computes, the disk refuses nothing, and \<open>force\<close> is set. Then the
  early return is not taken (the type declarations on disk hold no double quote, and
  there is a file to look for), the run completes, every call of
  \<^verbatim>\<open>writeIfChanged\<close> resolves to \<^verbatim>\<open>true\<close>, and the journal of the disk grows by one
  write per artifact, in order.
\<close>

theorem force_writes_every_artifact:
  assumes w: "writeIfChanged env = writeIfChanged_spec (md5 env)"
    and f: "force opts"
    and ne: "files opts \<noteq> []"
    and out: "final_output env opts = Inr out"
    and same: "\<forall>(p, c) \<in> set (fresh_artifacts env opts out). disk d p = Inr c"
    and df: "dir_fault d = (\<lambda>p. None)"
    and wf: "write_fault d = (\<lambda>p. None)"
  shows "\<not> upToDate env opts d
    \<and> (\<exists>m. run env opts d = (Inr (), m)
          \<and> journal (filesys m) = journal d @ fresh_artifacts env opts out
          \<and> write_results (calls m) = map (\<lambda>a. Inr True) (fresh_artifacts env opts out))"
proof -
  have t: "disk d (typeOutputFilepath opts) = Inr (typeOutputContent (map (iconName env) (files opts)))"
    using same by (simp add: fresh_artifacts_def)
  have n: "\<not> upToDate env opts d"
    using not_upToDate_own_types[OF ne t] .
  have ok: "\<forall>(p, c) \<in> set (fresh_artifacts env opts out). (\<exists>s. disk d p = Inr s) \<or> disk d p = Inl ENOENT"
    using same by auto
  show ?thesis using forced_run[OF w f n out ok df wf] n by blast
qed

lemma forced_paths:
  "spriteFilepath forced_options = ''public/sprite.svg''"
  "typesDir forced_options = ''src/gen/types''"
  "typeOutputFilepath forced_options = ''src/gen/types/icon-name.d.ts''"
  "iconsOutputFilepath forced_options = ''src/gen/icons.ts''"
  "hashOutputFilepath forced_options = ''src/gen/hash.ts''"
  by (simp_all add: path_eval forced_options_def demo_options_def)

lemma forced_fresh_artifacts:
  "fresh_artifacts demo_env forced_options ''<svg><symbol id=home/></svg>'' =
     [(''public/sprite.svg'', ''<svg><symbol id=home/></svg>''),
      (''src/gen/types/icon-name.d.ts'', typeOutputContent [''home'']),
      (''src/gen/icons.ts'', iconsOutputContent [''home'']),
      (''src/gen/hash.ts'', hashFileContent (Some ''1c''))]"
proof -
  have "md5 demo_env ''<svg><symbol id=home/></svg>'' = ''1c''"
    by (simp add: demo_env_def demo_digest_sprite)
  then show ?thesis
    unfolding fresh_artifacts_def forced_paths sprite_hash_def
    by (simp add: forced_options_def demo_options_def demo_iconName_home)
qed

theorem force_writes_every_artifact_witness:
  "force forced_options \<and> files forced_options \<noteq> []
   \<and> final_output demo_env forced_options = Inr ''<svg><symbol id=home/></svg>''
   \<and> disk disk_after_run ''src/gen/types/icon-name.d.ts'' = Inr (typeOutputContent [''home''])
   \<and> \<not> upToDate demo_env forced_options disk_after_run
   \<and> fst (run demo_env forced_options disk_after_run) = Inr ()
   \<and> journal (filesys (snd (run demo_env forced_options disk_after_run)))
       = [(''public/sprite.svg'', ''<svg><symbol id=home/></svg>''),
          (''src/gen/types/icon-name.d.ts'', typeOutputContent [''home'']),
          (''src/gen/icons.ts'', iconsOutputContent [''home'']),
          (''src/gen/hash.ts'', hashFileContent (Some ''1c''))]
   \<and> write_results (calls (snd (run demo_env forced_options disk_after_run)))
       = [Inr True, Inr True, Inr True, Inr True]"
proof -
  have w: "writeIfChanged demo_env = writeIfChanged_spec (md5 demo_env)"
    by (simp add: demo_env_def)
  have f: "force forced_options" and ne: "files forced_options \<noteq> []"
    by (simp_all add: forced_options_def demo_options_def)
  have out: "final_output demo_env forced_options = Inr ''<svg><symbol id=home/></svg>''"
    by (simp add: final_output_def forced_options_def demo_options_def demo_env_def
        demo_iconName_def endsWith_def)
  have same: "\<forall>(p, c) \<in> set (fresh_artifacts demo_env forced_options ''<svg><symbol id=home/></svg>'').
                disk disk_after_run p = Inr c"
    unfolding forced_fresh_artifacts by (simp add: disk_after_run_def)
  have df: "dir_fault disk_after_run = (\<lambda>p. None)" and wf: "write_fault disk_after_run = (\<lambda>p. None)"
    and j: "journal disk_after_run = []"
    and t: "disk disk_after_run ''src/gen/types/icon-name.d.ts'' = Inr (typeOutputContent [''home''])"
    by (simp_all add: disk_after_run_def empty_disk_def)
  obtain m where n: "\<not> upToDate demo_env forced_options disk_after_run"
    and r: "run demo_env forced_options disk_after_run = (Inr (), m)"
    and jm: "journal (filesys m) = journal disk_after_run
               @ fresh_artifacts demo_env forced_options ''<svg><symbol id=home/></svg>''"
    and wr: "write_results (calls m)
               = map (\<lambda>a. Inr True) (fresh_artifacts demo_env forced_options ''<svg><symbol id=home/></svg>'')"
    using force_writes_every_artifact[OF w f ne out same df wf] by blast
  show ?thesis
    using f ne out t n jm wr unfolding forced_fresh_artifacts by (simp add: r j)
qed

subsection \<open>Running twice\<close>

lemma writeIfChanged_spec_faults:
  assumes "writeIfChanged_spec hashOf p c h frc d = (r, d')"
  shows "dir_fault d' = dir_fault d" and "write_fault d' = write_fault d"
  using assms unfolding writeIfChanged_spec_def writeFile_def
  by (auto split: sum.splits option.splits if_splits prod.splits)

lemma writeIfChanged_spec_frame:
  assumes "writeIfChanged_spec hashOf p c h frc d = (r, d')" and "q \<noteq> p"
  shows "disk d' q = disk d q"
  using writeIfChanged_spec_own_path[of hashOf] assms
  unfolding writes_own_path_def by (metis snd_conv)

lemma writeIfChanged_spec_settled:
  assumes "writeIfChanged_spec hashOf p c h False d = (Inr b, d')"
    and "h = None \<or> h = Some (hashOf c)"
    and "disk e p = disk d' p"
  shows "writeIfChanged_spec hashOf p c h False e = (Inr False, e)"
proof (cases b)
  case True
  then have "disk d' p = Inr c"
    using assms(1) unfolding writeIfChanged_spec_def writeFile_def
    by (auto split: sum.splits option.splits if_splits prod.splits)
  then show ?thesis
    using assms(2,3) by (auto simp: writeIfChanged_spec_def readFile_def)
next
  case False
  then have "d' = d"
    using assms(1) unfolding writeIfChanged_spec_def writeFile_def
    by (auto split: sum.splits option.splits if_splits prod.splits)
  then show ?thesis
    using assms False unfolding writeIfChanged_spec_def writeFile_def readFile_def
    by (auto split: sum.splits option.splits if_splits prod.splits)
qed

lemma run_upToDate:
  assumes "dir_fault d (typesDir opts) = None" and "upToDate env opts d"
  shows "run env opts d = (Inr (), \<lparr>filesys = d, calls = [], console = [IconsUpToDate]\<rparr>)"
  using assms by (simp add: run_def generateIconFiles_upToDate)

text \<open>
  C3, as the code has it. Without \<open>force\<close>, a run that completed is followed, for the
  same options and collaborators, by a run that completes and writes nothing: the
  disk, its journal included, is what the first run left, every call of
  \<^verbatim>\<open>writeIfChanged\<close> resolves to \<^verbatim>\<open>false\<close>, and the last line printed says that the
  icons are up to date.
\<close>

theorem second_run_writes_nothing:
  assumes w: "writeIfChanged env = writeIfChanged_spec (md5 env)"
    and f: "\<not> force opts"
    and r1: "run env opts d = (Inr (), m1)"
  shows "\<exists>m2. run env opts (filesys m1) = (Inr (), m2)
          \<and> filesys m2 = filesys m1
          \<and> set (write_results (calls m2)) \<subseteq> {Inr False}
          \<and> last (console m2) = IconsUpToDate"
proof (cases "upToDate env opts d")
  case True
  have d0: "dir_fault d (typesDir opts) = None" using run_Inr_dir_fault[OF r1] .
  have m1: "m1 = \<lparr>filesys = d, calls = [], console = [IconsUpToDate]\<rparr>"
    using r1 run_upToDate[OF d0 True] by simp
  show ?thesis
    using run_upToDate[OF d0 True] by (simp add: m1)
next
  case False
  define names where "names = map (iconName env) (files opts)"
  define e where "e = filesys m1"
  obtain generated cfg out c1 c2 c3 c4 fs1 fs2 fs3 where
    g: "generateSvgSprite env (files opts) (inputDir opts) = Inr generated"
    and o: "if shouldOptimize opts
            then loadConfig env = Inr cfg \<and> optimize env generated cfg = Inr out
            else out = generated"
    and w1: "writeIfChanged env (spriteFilepath opts) out (sprite_hash opts env out) (force opts) d
               = (Inr c1, fs1)"
    and w2: "writeIfChanged env (typeOutputFilepath opts) (typeOutputContent names) None (force opts) fs1
               = (Inr c2, fs2)"
    and w3: "writeIfChanged env (iconsOutputFilepath opts) (iconsOutputContent names) None (force opts) fs2
               = (Inr c3, fs3)"
    and w4: "if shouldHash opts
             then writeIfChanged env (hashOutputFilepath opts) (hashFileContent (sprite_hash opts env out))
                    None (force opts) fs3 = (Inr c4, e)
             else e = fs3"
    using run_Inr_regenerated[OF r1 False] unfolding names_def e_def by blast
  have pd: "distinct [spriteFilepath opts, typeOutputFilepath opts, iconsOutputFilepath opts,
                      hashOutputFilepath opts]"
    using paths_distinct .
  have frc: "force opts = False" using f by simp
  note W1 = w1[unfolded w frc] and W2 = w2[unfolded w frc] and W3 = w3[unfolded w frc]
  have fs3e_disk: "\<And>q. q \<noteq> hashOutputFilepath opts \<Longrightarrow> disk e q = disk fs3 q"
    and fs3e_df: "dir_fault e = dir_fault fs3"
    using w4 writeIfChanged_spec_frame[of "md5 env" "hashOutputFilepath opts"] 
      writeIfChanged_spec_faults(1)[of "md5 env" "hashOutputFilepath opts"]
    unfolding w by (auto split: if_splits)
  have e_sprite: "disk e (spriteFilepath opts) = disk fs1 (spriteFilepath opts)"
    using fs3e_disk[of "spriteFilepath opts"] writeIfChanged_spec_frame[OF W3, of "spriteFilepath opts"]
      writeIfChanged_spec_frame[OF W2, of "spriteFilepath opts"] pd by auto
  have e_types: "disk e (typeOutputFilepath opts) = disk fs2 (typeOutputFilepath opts)"
    using fs3e_disk[of "typeOutputFilepath opts"] writeIfChanged_spec_frame[OF W3, of "typeOutputFilepath opts"]
      pd by auto
  have e_icons: "disk e (iconsOutputFilepath opts) = disk fs3 (iconsOutputFilepath opts)"
    using fs3e_disk[of "iconsOutputFilepath opts"] pd by auto
  have hs: "sprite_hash opts env out = None \<or> sprite_hash opts env out = Some (md5 env out)"
    by (simp add: sprite_hash_def)
  have v1: "writeIfChanged env (spriteFilepath opts) out (sprite_hash opts env out) (force opts) e
              = (Inr False, e)"
    unfolding w frc using writeIfChanged_spec_settled[OF W1 hs e_sprite] .
  have v2: "writeIfChanged env (typeOutputFilepath opts) (typeOutputContent names) None (force opts) e
              = (Inr False, e)"
    unfolding w frc using writeIfChanged_spec_settled[OF W2 _ e_types] by simp
  have v3: "writeIfChanged env (iconsOutputFilepath opts) (iconsOutputContent names) None (force opts) e
              = (Inr False, e)"
    unfolding w frc using writeIfChanged_spec_settled[OF W3 _ e_icons] by simp
  have v4: "if shouldHash opts
             then writeIfChanged env (hashOutputFilepath opts) (hashFileContent (sprite_hash opts env out))
                    None (force opts) e = (Inr False, e)
             else e = e"
  proof (cases "shouldHash opts")
    case True
    then have W4: "writeIfChanged_spec (md5 env) (hashOutputFilepath opts)
                     (hashFileContent (sprite_hash opts env out)) None False fs3 = (Inr c4, e)"
      using w4 unfolding w frc by simp
    show ?thesis
      unfolding w frc using True writeIfChanged_spec_settled[OF W4, of e] by simp
  qed simp
  have d0: "dir_fault d (typesDir opts) = None" using run_Inr_dir_fault[OF r1] .
  have de: "dir_fault e (typesDir opts) = None"
    using d0 fs3e_df writeIfChanged_spec_faults(1)[OF W1] writeIfChanged_spec_faults(1)[OF W2]
      writeIfChanged_spec_faults(1)[OF W3] by simp
  show ?thesis
  proof (cases "upToDate env opts e")
    case True
    show ?thesis
      using run_upToDate[OF de True] by (simp add: e_def)
  next
    case False
    define m0 where "m0 = \<lparr>filesys = e, calls = [], console = []\<rparr>"
    have "run env opts e = regenerate env opts names m0"
      unfolding names_def m0_def using run_regenerates(1)[OF de False] .
    moreover have "regenerate env opts names m0 =
           (Inr (), m0\<lparr>filesys := e,
                      calls := calls m0 @ expected_calls opts env names generated cfg out False False False False,
                      console := console m0 @ expected_console opts env out False False False False\<rparr>)"
      by (rule regenerate_InrI[OF g o _ v2 v3 v4]) (simp add: m0_def v1)
    ultimately show ?thesis
      by (auto simp: e_def[symmetric] m0_def write_results_expected_calls last_expected_console)
  qed
qed

theorem second_run_writes_nothing_witness:
  "\<not> force demo_options
   \<and> run demo_env demo_options empty_disk = (Inr (), snd (run demo_env demo_options empty_disk))
   \<and> (\<exists>m2. run demo_env demo_options (filesys (snd (run demo_env demo_options empty_disk))) = (Inr (), m2)
          \<and> filesys m2 = filesys (snd (run demo_env demo_options empty_disk))
          \<and> set (write_results (calls m2)) \<subseteq> {Inr False}
          \<and> last (console m2) = IconsUpToDate)"
proof -
  have w: "writeIfChanged demo_env = writeIfChanged_spec (md5 demo_env)"
    by (simp add: demo_env_def)
  have f: "\<not> force demo_options" by (simp add: demo_options_def)
  have r: "run demo_env demo_options empty_disk = (Inr (), snd (run demo_env demo_options empty_disk))"
    using demo_run_empty_disk by auto
  show ?thesis
    using second_run_writes_nothing[OF w f r] f r by blast
qed

text \<open>
  C3 as stated fails at this input, where \<open>force\<close> is set: the run over
  \<^verbatim>\<open>home.svg\<close> on the empty disk completes, and the same run again, on the disk
  the first one left, completes with
  every call of \<^verbatim>\<open>writeIfChanged\<close> resolved to \<^verbatim>\<open>true\<close>, four more writes in the
  journal, and a last line that says one icon was generated.
\<close>

theorem forced_second_run_writes_again:
  "fst (run demo_env forced_options empty_disk) = Inr ()
   \<and> fst (run demo_env forced_options (filesys (snd (run demo_env forced_options empty_disk)))) = Inr ()
   \<and> write_results (calls (snd (run demo_env forced_options
          (filesys (snd (run demo_env forced_options empty_disk))))))
       = [Inr True, Inr True, Inr True, Inr True]
   \<and> length (journal (filesys (snd (run demo_env forced_options
          (filesys (snd (run demo_env forced_options empty_disk)))))))
       = length (journal (filesys (snd (run demo_env forced_options empty_disk)))) + 4
   \<and> last (console (snd (run demo_env forced_options
          (filesys (snd (run demo_env forced_options empty_disk))))))
       = GeneratedIcons 1"
proof -
  define out where "out = ''<svg><symbol id=home/></svg>''"
  have w: "writeIfChanged demo_env = writeIfChanged_spec (md5 demo_env)"
    by (simp add: demo_env_def)
  have f: "force forced_options" and ne: "files forced_options \<noteq> []"
    and l: "length (files forced_options) = 1"
    by (simp_all add: forced_options_def demo_options_def)
  have o: "final_output demo_env forced_options = Inr out"
    by (simp add: final_output_def forced_options_def demo_options_def demo_env_def
        demo_iconName_def endsWith_def out_def)
  have n1: "\<not> upToDate demo_env forced_options empty_disk"
    by (rule not_upToDate_if_empty_text[OF ne])
       (simp add: readFileOrEmpty_def readFile_def empty_disk_def)
  have ok1: "\<forall>(p, c) \<in> set (fresh_artifacts demo_env forced_options out).
               (\<exists>s. disk empty_disk p = Inr s) \<or> disk empty_disk p = Inl ENOENT"
    by (simp add: empty_disk_def)
  have df1: "dir_fault empty_disk = (\<lambda>p. None)" and wf1: "write_fault empty_disk = (\<lambda>p. None)"
    by (simp_all add: empty_disk_def)
  obtain m1 where r1: "run demo_env forced_options empty_disk = (Inr (), m1)"
    and a1: "\<forall>(p, c) \<in> set (fresh_artifacts demo_env forced_options out). disk (filesys m1) p = Inr c"
    and df2: "dir_fault (filesys m1) = (\<lambda>p. None)" and wf2: "write_fault (filesys m1) = (\<lambda>p. None)"
    using forced_run[OF w f n1 o ok1 df1 wf1] by blast
  have t: "disk (filesys m1) (typeOutputFilepath forced_options)
             = Inr (typeOutputContent (map (iconName demo_env) (files forced_options)))"
    using a1 by (simp add: fresh_artifacts_def)
  have n2: "\<not> upToDate demo_env forced_options (filesys m1)"
    using not_upToDate_own_types[OF ne t] .
  have ok2: "\<forall>(p, c) \<in> set (fresh_artifacts demo_env forced_options out).
               (\<exists>s. disk (filesys m1) p = Inr s) \<or> disk (filesys m1) p = Inl ENOENT"
    using a1 by auto
  obtain m2 where r2: "run demo_env forced_options (filesys m1) = (Inr (), m2)"
    and j2: "journal (filesys m2) = journal (filesys m1) @ fresh_artifacts demo_env forced_options out"
    and wr: "write_results (calls m2) = map (\<lambda>a. Inr True) (fresh_artifacts demo_env forced_options out)"
    and c2: "last (console m2) = GeneratedIcons (length (files forced_options))"
    using forced_run[OF w f n2 o ok2 df2 wf2] by blast
  show ?thesis
    using j2 wr c2 unfolding out_def forced_fresh_artifacts by (simp add: r1 r2 l)
qed

subsection \<open>Reading the generated texts back\<close>

lemma index_of_nth: "distinct xs \<Longrightarrow> j < length xs \<Longrightarrow> index_of (xs ! j) xs = j"
proof (induction xs arbitrary: j)
  case Nil
  then show ?case by simp
next
  case (Cons x xs)
  then show ?case by (cases j) auto
qed

lemma hex_val_hex_digit: "j < 16 \<Longrightarrow> hex_val (hex_digit j) = j"
  unfolding hex_val_def hex_digit_def
  by (subst index_of_nth) simp_all

lemma hex_digit_in: "hex_digit j \<in> set ''0123456789abcdef''"
  unfolding hex_digit_def by (rule nth_mem) simp

lemma hex_digit_plain: "hex_digit j \<noteq> dquote" "hex_digit j \<noteq> squote" "hex_digit j \<noteq> CHR 0x5C"
  using hex_digit_in[of j] by auto

lemma unescape_json_escape: "unescape (json_escape c @ s) = c # unescape s"
proof -
  have plain: "unescape (c # s) = c # unescape s" if "c \<noteq> CHR 0x5C"
    using that by (cases s) auto
  have k: "(of_char c :: nat) < 32 \<Longrightarrow>
       char_of (hex_val (hex_digit ((of_char c :: nat) div 16)) * 16
                + hex_val (hex_digit ((of_char c :: nat) mod 16))) = c"
    by (simp add: hex_val_hex_digit)
  have z: "hex_val CHR ''0'' = 0" by (simp add: hex_val_def)
  show ?thesis
    using plain k by (auto simp: json_escape_def z)
qed

lemma unescape_json_body: "unescape (concat (map json_escape n)) = n"
  by (induction n) (simp_all add: unescape_json_escape)

lemma scan_outside: "q \<notin> set pre \<Longrightarrow> scan q None (pre @ s) = scan q None s"
  by (induction pre) auto

lemma scan_no_quote: "q \<notin> set pre \<Longrightarrow> scan q None pre = []"
  using scan_outside[of q pre "[]"] by simp

lemma scan_json_escape:
  "scan dquote (Some acc) (json_escape c @ s) = scan dquote (Some (acc @ json_escape c)) s"
  by (auto simp: json_escape_def hex_digit_plain)

lemma scan_json_body:
  "scan dquote (Some acc) (concat (map json_escape n) @ dquote # s)
     = (acc @ concat (map json_escape n)) # scan dquote None s"
proof (induction n arbitrary: acc)
  case Nil
  then show ?case by simp
next
  case (Cons c n)
  show ?case
    using Cons[of "acc @ json_escape c"] by (simp add: scan_json_escape)
qed

lemma scan_JSON_stringify:
  "scan dquote None (JSON_stringify n @ s) = concat (map json_escape n) # scan dquote None s"
  by (simp add: JSON_stringify_def scan_json_body)

lemma scan_squote_json_escape:
  "c \<noteq> squote \<Longrightarrow>
     scan squote (Some acc) (replace_dquotes (json_escape c) @ s)
       = scan squote (Some (acc @ replace_dquotes (json_escape c))) s"
  by (auto simp: json_escape_def replace_dquotes_def hex_digit_plain)

lemma replace_dquotes_append: "replace_dquotes (a @ b) = replace_dquotes a @ replace_dquotes b"
  by (simp add: replace_dquotes_def)

lemma scan_squote_json_body:
  "squote \<notin> set n \<Longrightarrow>
     scan squote (Some acc) (replace_dquotes (concat (map json_escape n)) @ squote # s)
       = (acc @ replace_dquotes (concat (map json_escape n))) # scan squote None s"
proof (induction n arbitrary: acc)
  case Nil
  then show ?case by (simp add: replace_dquotes_def)
next
  case (Cons c n)
  then have c: "c \<noteq> squote" and n: "squote \<notin> set n" by auto
  show ?case
    using Cons.IH[OF n, of "acc @ replace_dquotes (json_escape c)"]
    by (simp add: replace_dquotes_append scan_squote_json_escape[OF c])
qed

lemma scan_squote_JSON_stringify:
  "squote \<notin> set n \<Longrightarrow>
     scan squote None (replace_dquotes (JSON_stringify n) @ s)
       = replace_dquotes (concat (map json_escape n)) # scan squote None s"
  using scan_squote_json_body[of n "[]" s]
  by (simp add: JSON_stringify_def replace_dquotes_append) (simp add: replace_dquotes_def)

lemma replace_dquotes_join:
  "replace_dquotes (join sep xs) = join (replace_dquotes sep) (map replace_dquotes xs)"
proof (induction sep xs rule: join.induct)
  case (1 sep)
  then show ?case by (simp add: replace_dquotes_def)
next
  case (2 sep x)
  then show ?case by simp
next
  case (3 sep x y ys)
  then show ?case by (simp add: replace_dquotes_append)
qed

lemma scan_join_icons:
  "dquote \<notin> set sep \<Longrightarrow>
     scan dquote None (join sep (map JSON_stringify names) @ s)
       = map (\<lambda>n. concat (map json_escape n)) names @ scan dquote None s"
proof (induction sep names rule: join.induct)
  case (1 sep)
  then show ?case by simp
next
  case (2 sep x)
  then show ?case by (simp add: scan_JSON_stringify)
next
  case (3 sep x y ys)
  then show ?case by (simp add: scan_JSON_stringify scan_outside)
qed

lemma scan_join_types:
  "squote \<notin> set sep \<Longrightarrow> \<forall>n \<in> set names. squote \<notin> set n \<Longrightarrow>
     scan squote None (join sep (map (\<lambda>n. replace_dquotes (JSON_stringify n)) names) @ s)
       = map (\<lambda>n. replace_dquotes (concat (map json_escape n))) names @ scan squote None s"
proof (induction sep names rule: join.induct)
  case (1 sep)
  then show ?case by simp
next
  case (2 sep x)
  then show ?case by (simp add: scan_squote_JSON_stringify)
next
  case (3 sep x y ys)
  then show ?case by (simp add: scan_squote_JSON_stringify scan_outside)
qed

lemma string_literals_iconsOutputContent:
  "string_literals dquote (iconsOutputContent names) = map (\<lambda>n. concat (map json_escape n)) names"
proof -
  have "scan dquote None
          (join ('','' @ [newline, tab]) (map JSON_stringify names)
             @ ('','' @ [newline] @ ''  ] satisfies Array<IconName>;'' @ [newline] @ ''  ''))
        = map (\<lambda>n. concat (map json_escape n)) names"
    by (subst scan_join_icons) (simp_all add: scan_no_quote)
  then show ?thesis
    unfolding string_literals_def iconsOutputContent_def stringifiedIconNames_def
    by (simp add: scan_outside)
qed

lemma string_literals_typeOutputContent:
  assumes "\<forall>n \<in> set names. squote \<notin> set n"
  shows "string_literals squote (typeOutputContent names)
           = map (\<lambda>n. replace_dquotes (concat (map json_escape n))) names"
proof -
  have "scan squote None
          (join ([newline, tab] @ ''| '') (map (\<lambda>n. replace_dquotes (JSON_stringify n)) names)
             @ ('';'' @ [newline] @ ''    ''))
        = map (\<lambda>n. replace_dquotes (concat (map json_escape n))) names"
    using assms by (subst scan_join_types) (simp_all add: scan_no_quote)
  moreover have "replace_dquotes ([newline, tab] @ ''| '') = [newline, tab] @ ''| ''"
    by (simp add: replace_dquotes_def)
  then have "replace_dquotes (join ([newline, tab] @ ''| '') (map JSON_stringify names))
        = join ([newline, tab] @ ''| '') (map (\<lambda>n. replace_dquotes (JSON_stringify n)) names)"
    by (simp only: replace_dquotes_join map_map comp_def)
  ultimately show ?thesis
    unfolding string_literals_def typeOutputContent_def stringifiedIconNames_def
    by (simp add: scan_outside)
qed

lemma no_dquote_json_escape: "c \<noteq> dquote \<Longrightarrow> dquote \<notin> set (json_escape c)"
  unfolding json_escape_def by (simp add: hex_digit_plain hex_digit_plain[symmetric])

lemma replace_dquotes_id: "dquote \<notin> set s \<Longrightarrow> replace_dquotes s = s"
  by (induction s) (auto simp: replace_dquotes_def)

lemma replace_dquotes_json_body:
  "dquote \<notin> set n \<Longrightarrow> replace_dquotes (concat (map json_escape n)) = concat (map json_escape n)"
proof (induction n)
  case Nil
  then show ?case by (simp add: replace_dquotes_def)
next
  case (Cons c n)
  then have "c \<noteq> dquote" and "dquote \<notin> set n" by auto
  then show ?case
    using Cons.IH replace_dquotes_id[OF no_dquote_json_escape[of c]]
    by (simp add: replace_dquotes_append)
qed

lemma contents_for_expected_calls_lists:
  "contents_for (typeOutputFilepath opts) (expected_calls opts env names generated cfg output c1 c2 c3 c4)
     = [typeOutputContent names]"
  "contents_for (iconsOutputFilepath opts) (expected_calls opts env names generated cfg output c1 c2 c3 c4)
     = [iconsOutputContent names]"
  using paths_distinct[of opts]
  by (auto simp: expected_calls_def contents_for_append)

lemma literals_denote_names:
  assumes "\<forall>n \<in> set names. squote \<notin> set n \<and> dquote \<notin> set n"
  shows "map unescape (string_literals squote (typeOutputContent names)) = names"
    and "map unescape (string_literals dquote (iconsOutputContent names)) = names"
proof -
  have "unescape (replace_dquotes (concat (map json_escape n))) = n" if "n \<in> set names" for n
    using that assms by (simp add: replace_dquotes_json_body unescape_json_body)
  then have "map (\<lambda>n. unescape (replace_dquotes (concat (map json_escape n)))) names = names"
    by (rule map_idI)
  then show "map unescape (string_literals squote (typeOutputContent names)) = names"
    using assms by (simp add: string_literals_typeOutputContent comp_def)
  have "map (\<lambda>n. unescape (concat (map json_escape n))) names = names"
    by (rule map_idI) (rule unescape_json_body)
  then show "map unescape (string_literals dquote (iconsOutputContent names)) = names"
    by (simp add: string_literals_iconsOutputContent comp_def)
qed

text \<open>
  C5. In a run that regenerates and completes, one text is handed to the write of the
  type declarations and one to the write of the identifier array. Read back, the
  single-quoted literals of the first and the double-quoted literals of the second
  denote the identifiers of the files, one per file and in the order of the files:
  nothing is sorted, nothing dropped, nothing added. The identifiers are those
  \<^verbatim>\<open>iconName\<close> derives, taken to hold no quote character (its contract: an identifier
  can be embedded in a quoted literal as it is).
\<close>

theorem identifiers_listed_in_file_order:
  assumes "run env opts d = (Inr (), m)" and "\<not> upToDate env opts d"
    and "\<forall>file \<in> set (files opts). squote \<notin> set (iconName env file) \<and> dquote \<notin> set (iconName env file)"
  shows "\<exists>types icons.
     contents_for (typeOutputFilepath opts) (calls m) = [types]
     \<and> contents_for (iconsOutputFilepath opts) (calls m) = [icons]
     \<and> map unescape (string_literals squote types) = map (iconName env) (files opts)
     \<and> map unescape (string_literals dquote icons) = map (iconName env) (files opts)"
proof -
  define names where "names = map (iconName env) (files opts)"
  obtain generated cfg out c1 c2 c3 c4 where
    c: "calls m = expected_calls opts env names generated cfg out c1 c2 c3 c4"
    using run_Inr_regenerated[OF assms(1,2)] unfolding names_def by blast
  have q: "\<forall>n \<in> set names. squote \<notin> set n \<and> dquote \<notin> set n"
    using assms(3) by (simp add: names_def)
  show ?thesis
    unfolding c contents_for_expected_calls_lists names_def[symmetric]
    using literals_denote_names[OF q] by simp
qed

lemma unsorted_names:
  "map (iconName demo_env) (files unsorted_options) = [''zebra'', ''apple'']"
  by (simp add: unsorted_options_def demo_env_def demo_iconName_def endsWith_def)

lemma unsorted_paths:
  "spriteFilepath unsorted_options = ''public/sprite.svg''"
  "typesDir unsorted_options = ''src/gen/types''"
  "typeOutputFilepath unsorted_options = ''src/gen/types/icon-name.d.ts''"
  "iconsOutputFilepath unsorted_options = ''src/gen/icons.ts''"
  "hashOutputFilepath unsorted_options = ''src/gen/hash.ts''"
  by (simp_all add: path_eval unsorted_options_def demo_options_def)

lemma generated_texts_nonempty:
  "typeOutputContent names \<noteq> []" "iconsOutputContent names \<noteq> []" "hashFileContent h \<noteq> []"
  by (simp_all add: typeOutputContent_def iconsOutputContent_def hashFileContent_def)

lemma unsorted_run_completes:
  "fst (run demo_env unsorted_options empty_disk) = Inr ()"
proof -
  have d: "dir_fault empty_disk (typesDir unsorted_options) = None"
    by (simp add: empty_disk_def)
  have n: "\<not> upToDate demo_env unsorted_options empty_disk"
    by (rule not_upToDate_if_empty_text)
       (simp_all add: unsorted_options_def readFileOrEmpty_def readFile_def empty_disk_def)
  have o: "shouldOptimize unsorted_options = False" "shouldHash unsorted_options = True"
    "force unsorted_options = False"
    by (simp_all add: unsorted_options_def demo_options_def)
  have e: "writeIfChanged demo_env = writeIfChanged_spec demo_digest"
    "\<And>fls dir. \<exists>doc. generateSvgSprite demo_env fls dir = Inr doc"
    by (simp_all add: demo_env_def)
  obtain doc where g: "generateSvgSprite demo_env (files unsorted_options) (inputDir unsorted_options) = Inr doc"
    using e(2) by blast
  show ?thesis
    unfolding run_regenerates(1)[OF d n] regenerate_def o unsorted_paths
    by (simp add: io_eval g e(1) writeIfChanged_spec_def readFile_def ensureDir_def
        writeFile_def empty_disk_def generated_texts_nonempty generated_texts_nonempty[symmetric])
qed

theorem identifiers_listed_in_file_order_witness:
  "run demo_env unsorted_options empty_disk = (Inr (), snd (run demo_env unsorted_options empty_disk))
   \<and> \<not> upToDate demo_env unsorted_options empty_disk
   \<and> (\<exists>types icons.
        contents_for (typeOutputFilepath unsorted_options)
          (calls (snd (run demo_env unsorted_options empty_disk))) = [types]
        \<and> contents_for (iconsOutputFilepath unsorted_options)
            (calls (snd (run demo_env unsorted_options empty_disk))) = [icons]
        \<and> map unescape (string_literals squote types) = [''zebra'', ''apple'']
        \<and> map unescape (string_literals dquote icons) = [''zebra'', ''apple''])"
proof -
  have r: "run demo_env unsorted_options empty_disk = (Inr (), snd (run demo_env unsorted_options empty_disk))"
    using unsorted_run_completes by (cases "run demo_env unsorted_options empty_disk") simp
  have n: "\<not> upToDate demo_env unsorted_options empty_disk"
    by (rule not_upToDate_if_empty_text)
       (simp_all add: unsorted_options_def readFileOrEmpty_def readFile_def empty_disk_def)
  have q: "\<forall>file \<in> set (files unsorted_options).
             squote \<notin> set (iconName demo_env file) \<and> dquote \<notin> set (iconName demo_env file)"
    by (simp add: unsorted_options_def demo_env_def demo_iconName_def endsWith_def)
  show ?thesis
    using identifiers_listed_in_file_order[OF r n q] r n unfolding unsorted_names by blast
qed

end
